theory Spec2Isabelle
  imports Main "HOL-Library.Word" "HOL-Library.Sublist"
begin

unbundle bit_operations_syntax

section \<open>Bytes, indexing, slices and errors\<close>

text \<open>
  A Python \<^verbatim>\<open>bytes\<close> object is a list of 8-bit words. Indexing it gives a Python
  integer (unbounded, here \<open>nat\<close>: a byte is never negative) and raises
  \<^verbatim>\<open>IndexError\<close> out of range; slicing never raises. Every exception that the
  functions of \<^verbatim>\<open>pybtc/functions/script.py\<close> can raise is a value of \<open>error\<close>.
\<close>

type_synonym byte = "8 word"

datatype error = IndexError | StructError | KeyError | TypeError | ValueError string

text \<open>The sequencing of two computations that may raise: the first error wins.\<close>

definition bind :: "error + 'a \<Rightarrow> ('a \<Rightarrow> error + 'b) \<Rightarrow> error + 'b" where
  "bind m f = (case m of Inl e \<Rightarrow> Inl e | Inr x \<Rightarrow> f x)"

text \<open>\<^verbatim>\<open>b[i]\<close> for an index \<open>i \<ge> 0\<close>.\<close>

definition byte_at :: "byte list \<Rightarrow> nat \<Rightarrow> error + nat" where
  "byte_at b i = (if i < length b then Inr (unat (b ! i)) else Inl IndexError)"

text \<open>\<^verbatim>\<open>b[-k]\<close> for \<open>k > 0\<close>: the \<open>k\<close>-th byte from the end.\<close>

definition byte_from_end :: "byte list \<Rightarrow> nat \<Rightarrow> error + nat" where
  "byte_from_end b k =
     (if 0 < k \<and> k \<le> length b then Inr (unat (b ! (length b - k))) else Inl IndexError)"

text \<open>\<^verbatim>\<open>b[i:j]\<close> for \<open>i, j \<ge> 0\<close>: Python clamps both ends to the length.\<close>

definition slice :: "'a list \<Rightarrow> nat \<Rightarrow> nat \<Rightarrow> 'a list" where
  "slice b i j = take (j - i) (drop i b)"

section \<open>The signature validator and decoder\<close>

text \<open>
  The Python condition \<^verbatim>\<open>(len_x > 1) and (sig[i] == 0x00) and (not sig[i + 1] & 0x80)\<close>,
  with its short-circuit evaluation: \<^verbatim>\<open>sig[i]\<close> is read only when \<open>len_x > 1\<close>, and
  \<^verbatim>\<open>sig[i + 1]\<close> only when \<^verbatim>\<open>sig[i]\<close> is zero.
\<close>

definition null_padded :: "byte list \<Rightarrow> nat \<Rightarrow> nat \<Rightarrow> error + bool" where
  "null_padded sig len_x i =
     (if len_x > 1
      then bind (byte_at sig i) (\<lambda>b.
             if b = 0x00
             then bind (byte_at sig (i + 1)) (\<lambda>c. Inr (c AND 0x80 = 0))
             else Inr False)
      else Inr False)"

definition is_valid_signature_encoding :: "byte list \<Rightarrow> error + bool" where
  "is_valid_signature_encoding sig =
     (let length = length sig in
      if length < 9 \<or> length > 73 then Inr False else
      bind (byte_at sig 0) (\<lambda>b0.
      if b0 \<noteq> 0x30 then Inr False else
      bind (byte_at sig 1) (\<lambda>b1.
      if b1 \<noteq> length - 3 then Inr False else
      bind (byte_at sig 3) (\<lambda>len_r.
      if 5 + len_r \<ge> length then Inr False else
      bind (byte_at sig (5 + len_r)) (\<lambda>len_s.
      if len_r + len_s + 7 \<noteq> length then Inr False else
      bind (byte_at sig 2) (\<lambda>b2.
      if b2 \<noteq> 0x02 then Inr False else
      if len_r = 0 then Inr False else
      bind (byte_at sig 4) (\<lambda>b4.
      if b4 AND 0x80 \<noteq> 0 then Inr False else
      bind (null_padded sig len_r 4) (\<lambda>pad_r.
      if pad_r then Inr False else
      bind (byte_at sig (len_r + 4)) (\<lambda>t.
      if t \<noteq> 0x02 then Inr False else
      if len_s = 0 then Inr False else
      bind (byte_at sig (len_r + 6)) (\<lambda>s0.
      if s0 AND 0x80 \<noteq> 0 then Inr False else
      bind (null_padded sig len_s (len_r + 6)) (\<lambda>pad_s.
      if pad_s then Inr False else
      Inr True)))))))))))"

definition invalid_signature :: error where
  "invalid_signature = ValueError ''invalid signature''"

definition parse_signature :: "byte list \<Rightarrow> error + (byte list \<times> byte list)" where
  "parse_signature sig =
     (let length = length sig in
      if length < 9 \<or> length > 73 then Inl invalid_signature else
      bind (byte_at sig 0) (\<lambda>b0.
      if b0 \<noteq> 0x30 then Inl invalid_signature else
      bind (byte_at sig 1) (\<lambda>b1.
      if b1 \<noteq> length - 3 then Inl invalid_signature else
      bind (byte_at sig 3) (\<lambda>len_r.
      if 5 + len_r \<ge> length then Inl invalid_signature else
      let r = slice sig 5 (4 + len_r) in
      bind (byte_at sig (5 + len_r)) (\<lambda>len_s.
      if len_r + len_s + 7 \<noteq> length then Inl invalid_signature else
      let s = slice sig (len_r + 6) (length - 1) in
      bind (byte_at sig 2) (\<lambda>b2.
      if b2 \<noteq> 0x02 then Inl invalid_signature else
      if len_r = 0 then Inl invalid_signature else
      bind (byte_at sig 4) (\<lambda>b4.
      if b4 AND 0x80 \<noteq> 0 then Inl invalid_signature else
      bind (null_padded sig len_r 4) (\<lambda>pad_r.
      if pad_r then Inl invalid_signature else
      bind (byte_at sig (len_r + 4)) (\<lambda>t.
      if t \<noteq> 0x02 then Inl invalid_signature else
      if len_s = 0 then Inl invalid_signature else
      bind (byte_at sig (len_r + 6)) (\<lambda>s0.
      if s0 AND 0x80 \<noteq> 0 then Inl invalid_signature else
      bind (null_padded sig len_s (len_r + 6)) (\<lambda>pad_s.
      if pad_s then Inl invalid_signature else
      Inr (r, s))))))))))))"

text \<open>
  The envelope of the specification, written from its words: \<open>0x30\<close>, the total length,
  \<open>0x02\<close>, \<open>len(r)\<close>, \<open>r\<close>, \<open>0x02\<close>, \<open>len(s)\<close>, \<open>s\<close> and the one-byte sighash
  suffix. The total length counts everything after it but the suffix.
\<close>

definition encode_signature_spec :: "byte list \<Rightarrow> byte list \<Rightarrow> byte \<Rightarrow> byte list" where
  "encode_signature_spec r s sighash =
     [0x30, of_nat (length r + length s + 4), 0x02, of_nat (length r)] @ r @
     [0x02, of_nat (length s)] @ s @ [sighash]"


section \<open>Opcode constants\<close>

text \<open>
  Modelled from the spec: the module \<^verbatim>\<open>pybtc.opcodes\<close> is not among the sources. Its
  dictionary \<^verbatim>\<open>OPCODE\<close> maps an opcode name to its integer value; the values are those
  of the specification's table of opcode constants. The bare names (\<^verbatim>\<open>OP_PUSHDATA1\<close>,
  \<^verbatim>\<open>OP_CHECKSIG\<close>) are the one-byte \<^verbatim>\<open>bytes\<close> objects of the same values:
  \<^verbatim>\<open>op_push_data\<close> and \<^verbatim>\<open>public_key_to_pubkey_script\<close> join them with other byte
  strings, which Python allows for \<^verbatim>\<open>bytes\<close> only.
\<close>

definition OPCODE_OP_PUSHDATA1 :: nat where [simp]: "OPCODE_OP_PUSHDATA1 = 0x4c"
definition OPCODE_OP_PUSHDATA2 :: nat where [simp]: "OPCODE_OP_PUSHDATA2 = 0x4d"
definition OPCODE_OP_PUSHDATA4 :: nat where [simp]: "OPCODE_OP_PUSHDATA4 = 0x4e"
definition OPCODE_OP_RETURN :: nat where [simp]: "OPCODE_OP_RETURN = 0x6a"
definition OPCODE_OP_CHECKSIG :: nat where [simp]: "OPCODE_OP_CHECKSIG = 0xac"
definition OPCODE_OP_CHECKSIGVERIFY :: nat where [simp]: "OPCODE_OP_CHECKSIGVERIFY = 0xad"
definition OPCODE_OP_CHECKMULTISIG :: nat where [simp]: "OPCODE_OP_CHECKMULTISIG = 0xae"
definition OPCODE_OP_CHECKMULTISIGVERIFY :: nat where [simp]: "OPCODE_OP_CHECKMULTISIGVERIFY = 0xaf"

definition OP_PUSHDATA1 :: "byte list" where [simp]: "OP_PUSHDATA1 = [0x4c]"
definition OP_PUSHDATA2 :: "byte list" where [simp]: "OP_PUSHDATA2 = [0x4d]"
definition OP_PUSHDATA4 :: "byte list" where [simp]: "OP_PUSHDATA4 = [0x4e]"

text \<open>
  \<^verbatim>\<open>struct.unpack('<H', b)[0]\<close> and \<^verbatim>\<open>struct.unpack('<L', b)[0]\<close>: the little-endian
  value of exactly two (four) bytes; any other length raises \<^verbatim>\<open>struct.error\<close>.
\<close>

definition unpack_H :: "byte list \<Rightarrow> error + nat" where
  "unpack_H b = (if length b = 2 then Inr (unat (b ! 0) + 256 * unat (b ! 1)) else Inl StructError)"

definition unpack_L :: "byte list \<Rightarrow> error + nat" where
  "unpack_L b =
     (if length b = 4
      then Inr (unat (b ! 0) + 256 * unat (b ! 1) + 65536 * unat (b ! 2) + 16777216 * unat (b ! 3))
      else Inl StructError)"

section \<open>The script classifier\<close>

text \<open>
  The dictionary that \<^verbatim>\<open>parse_script\<close> returns. A key that a result does not carry is
  \<open>None\<close>; \<open>reqSigs\<close> is always present, and its \<open>None\<close> is Python's \<^verbatim>\<open>None\<close>.
  The keys \<^verbatim>\<open>"type"\<close>, \<^verbatim>\<open>"script"\<close> and \<^verbatim>\<open>"data"\<close> are the fields \<open>type_name\<close>,
  \<open>script_echo\<close> and \<open>data_payload\<close>.
\<close>

record script_result =
  nType :: nat
  type_name :: string
  reqSigs :: "nat option"
  addressHash :: "byte list option"
  script_echo :: "byte list option"
  data_payload :: "byte list option"
  pubKeys :: "nat option"

definition mk_result :: "nat \<Rightarrow> string \<Rightarrow> nat option \<Rightarrow> script_result" where
  "mk_result nt ty rs =
     \<lparr>nType = nt, type_name = ty, reqSigs = rs, addressHash = None, script_echo = None,
      data_payload = None, pubKeys = None\<rparr>"

text \<open>\<^verbatim>\<open>if c: return r\<close> followed by the rest \<open>k\<close>, where evaluating \<open>c\<close> may raise.\<close>

definition return_if :: "error + bool \<Rightarrow> error + 'a \<Rightarrow> error + 'a \<Rightarrow> error + 'a" where
  "return_if c r k = bind c (\<lambda>b. if b then r else k)"

text \<open>\<^verbatim>\<open>a and e\<close>: the right operand, which may raise, is evaluated only when \<open>a\<close> holds.\<close>

definition lazy_and :: "bool \<Rightarrow> error + bool \<Rightarrow> error + bool" where
  "lazy_and a e = (if a then e else Inr False)"

text \<open>\<^verbatim>\<open>script[i] == v\<close> and \<^verbatim>\<open>script[-k] == v\<close>.\<close>

definition byte_is :: "byte list \<Rightarrow> nat \<Rightarrow> nat \<Rightarrow> error + bool" where
  "byte_is b i v = bind (byte_at b i) (\<lambda>x. Inr (x = v))"

definition byte_from_end_is :: "byte list \<Rightarrow> nat \<Rightarrow> nat \<Rightarrow> error + bool" where
  "byte_from_end_is b k v = bind (byte_from_end b k) (\<lambda>x. Inr (x = v))"

text \<open>Lines 55--65: the branch taken when the first byte is \<^verbatim>\<open>OP_RETURN\<close>.\<close>

definition op_return_template :: "byte list \<Rightarrow> error + script_result" where
  "op_return_template script =
     (let l = length script;
          non_standard = Inr ((mk_result 8 ''NULL_DATA_NON_STANDARD'' (Some 0))\<lparr>script_echo := Some script\<rparr>)
      in
      if l = 1 then Inr ((mk_result 3 ''NULL_DATA'' (Some 0))\<lparr>data_payload := Some []\<rparr>)
      else bind (byte_at script 1) (\<lambda>b1.
        if b1 < OPCODE_OP_PUSHDATA1 then
          (if b1 = l - 2
           then Inr ((mk_result 3 ''NULL_DATA'' (Some 0))\<lparr>data_payload := Some (drop 2 script)\<rparr>)
           else non_standard)
        else if b1 = OPCODE_OP_PUSHDATA1 then
          (if l > 2
           then bind (byte_at script 2) (\<lambda>b2.
                  if b2 = l - 3 \<and> b2 \<le> 80
                  then Inr ((mk_result 3 ''NULL_DATA'' (Some 0))\<lparr>data_payload := Some (drop 3 script)\<rparr>)
                  else non_standard)
           else non_standard)
        else non_standard))"

text \<open>
  Lines 70--78: the walk over the interior of a candidate multisig script. It returns the
  count \<open>c\<close>; the \<^verbatim>\<open>break\<close> of the \<^verbatim>\<open>else\<close> branch leaves the loop with \<open>c = 0\<close>.
  (\<open>l - 2 - s > 0\<close> on \<open>nat\<close> holds exactly when it holds on Python's integers.)
\<close>

function multisig_loop :: "byte list \<Rightarrow> nat \<Rightarrow> nat \<Rightarrow> error + nat" where
  "multisig_loop script c s =
     (if length script - 2 - s > 0
      then (case byte_at script s of
              Inl e \<Rightarrow> Inl e
            | Inr b \<Rightarrow> if b < 0x4c then multisig_loop script (c + 1) (s + b + 1) else Inr 0)
      else Inr c)"
  by pat_completeness auto
termination
  by (relation "measure (\<lambda>(script, c, s). length script - s)") auto

text \<open>
  Lines 66--81: the bare multisig template. \<open>None\<close> is the fall-through to the generic
  walk.
\<close>

definition multisig_template :: "byte list \<Rightarrow> error + script_result option" where
  "multisig_template script =
     bind (byte_at script 0) (\<lambda>b0.
     if b0 \<ge> 81 \<and> b0 \<le> 96 then
       bind (byte_from_end script 1) (\<lambda>e1.
       if e1 = 174 then
         bind (byte_from_end script 2) (\<lambda>e2.
         if e2 \<ge> 81 \<and> e2 \<le> 96 then
           if e2 \<ge> b0 then
             bind (multisig_loop script 0 1) (\<lambda>c.
             if c = e2 - 80
             then Inr (Some ((mk_result 4 ''MULTISIG'' (Some (b0 - 80)))
                              \<lparr>pubKeys := Some c, script_echo := Some script\<rparr>))
             else Inr None)
           else Inr None
         else Inr None)
       else Inr None)
     else Inr None)"

text \<open>The variables of the generic walk of lines 83--128.\<close>

record walk =
  w_s :: nat
  w_m :: nat
  w_n :: nat
  w_last :: nat
  w_req_sigs :: nat

text \<open>Lines 126--128, the end of every iteration that does not \<^verbatim>\<open>break\<close>.\<close>

definition next_unit :: "walk \<Rightarrow> walk" where
  "next_unit w = (let w1 = (if w_last w \<noteq> 0 then w\<lparr>w_last := w_last w - 1\<rparr> else w)
                  in w1\<lparr>w_s := w_s w1 + 1\<rparr>)"

text \<open>
  Lines 85--128: one iteration of the loop, entered with \<open>s < l\<close>. \<open>None\<close> is a
  \<^verbatim>\<open>break\<close>: the bare \<^verbatim>\<open>except\<close> clauses turn every exception of the reads of a PUSHDATA
  length into one.
\<close>

definition generic_step :: "byte list \<Rightarrow> walk \<Rightarrow> error + walk option" where
  "generic_step script w =
     bind (byte_at script (w_s w)) (\<lambda>b.
     if b \<ge> 81 \<and> b \<le> 96 then
       Inr (Some (next_unit
         (if w_n w = 0 then w\<lparr>w_n := b - 80\<rparr>
          else if w_m w = 0 then w\<lparr>w_n := b - 80, w_m := 0\<rparr>
          else if w_n w > w_m w then w\<lparr>w_n := b - 80, w_m := 0\<rparr>
          else if w_m w = b - 80 then w\<lparr>w_last := (if w_last w \<noteq> 0 then 0 else 2)\<rparr>
          else w)))
     else if b < 0x4c then
       Inr (Some (next_unit
         (let w1 = w\<lparr>w_s := w_s w + b, w_m := w_m w + 1\<rparr>
          in if w_m w1 > 16 then w1\<lparr>w_n := 0, w_m := 0\<rparr> else w1)))
     else if b = OPCODE_OP_PUSHDATA1 then
       (case byte_at script (w_s w + 1) of
          Inl e \<Rightarrow> Inr None
        | Inr ld \<Rightarrow> Inr (Some (next_unit (w\<lparr>w_s := w_s w + (1 + ld)\<rparr>))))
     else if b = OPCODE_OP_PUSHDATA2 then
       (case unpack_H (slice script (w_s w + 1) (w_s w + 3)) of
          Inl e \<Rightarrow> Inr None
        | Inr ld \<Rightarrow> Inr (Some (next_unit (w\<lparr>w_s := w_s w + (2 + ld)\<rparr>))))
     else if b = OPCODE_OP_PUSHDATA4 then
       (case unpack_L (slice script (w_s w + 1) (w_s w + 5)) of
          Inl e \<Rightarrow> Inr None
        | Inr ld \<Rightarrow> Inr (Some (next_unit (w\<lparr>w_s := w_s w + (4 + ld)\<rparr>))))
     else
       Inr (Some (next_unit
         ((if b = OPCODE_OP_CHECKSIG then w\<lparr>w_req_sigs := w_req_sigs w + 1\<rparr>
           else if b = OPCODE_OP_CHECKSIGVERIFY then w\<lparr>w_req_sigs := w_req_sigs w + 1\<rparr>
           else if b = OPCODE_OP_CHECKMULTISIG \<or> b = OPCODE_OP_CHECKMULTISIGVERIFY then
             (if w_last w \<noteq> 0 then w\<lparr>w_req_sigs := w_req_sigs w + w_n w\<rparr>
              else w\<lparr>w_req_sigs := w_req_sigs w + 20\<rparr>)
           else w)\<lparr>w_n := 0, w_m := 0\<rparr>))))"

lemma next_unit_s: "w_s (next_unit w) = w_s w + 1"
  by (simp add: next_unit_def Let_def)

lemma generic_step_advances:
  "generic_step script w = Inr (Some w') \<Longrightarrow> w_s w < w_s w'"
  by (auto simp: generic_step_def bind_def next_unit_s Let_def
      split: sum.splits if_splits)

text \<open>
  Lines 84--128: the loop. Every iteration that does not \<^verbatim>\<open>break\<close> moves \<open>s\<close> forward, which
  is the termination argument.
\<close>

function generic_walk :: "byte list \<Rightarrow> walk \<Rightarrow> error + walk" where
  "generic_walk script w =
     (if length script - w_s w > 0
      then (case generic_step script w of
              Inl e \<Rightarrow> Inl e
            | Inr None \<Rightarrow> Inr w
            | Inr (Some w') \<Rightarrow> generic_walk script w')
      else Inr w)"
  by pat_completeness auto
termination
  by (relation "measure (\<lambda>(script, w). length script - w_s w)")
     (auto dest: generic_step_advances)

text \<open>
  Lines 19--129. \<open>hash160\<close> is the digest of \<^verbatim>\<open>pybtc.functions.hash\<close>, a module that is
  not among the sources: it is a parameter. \<^verbatim>\<open>get_bytes\<close> is the identity on \<^verbatim>\<open>bytes\<close>.
\<close>

definition parse_script :: "(byte list \<Rightarrow> byte list) \<Rightarrow> byte list \<Rightarrow> bool \<Rightarrow> error + script_result" where
  "parse_script hash160 script segwit =
     (if script = [] then Inr ((mk_result 7 ''NON_STANDARD'' (Some 0))\<lparr>script_echo := Some []\<rparr>)
      else
      let l = length script in
      return_if (lazy_and (segwit \<and> l = 22) (byte_is script 0 0))
        (Inr ((mk_result 5 ''P2WPKH'' (Some 1))\<lparr>addressHash := Some (drop 2 script)\<rparr>))
     (return_if (lazy_and (segwit \<and> l = 34) (byte_is script 0 0))
        (Inr ((mk_result 6 ''P2WSH'' None)\<lparr>addressHash := Some (drop 2 script)\<rparr>))
     (return_if (Inr (l = 25 \<and> take 2 script = [0x76, 0xa9] \<and> drop (l - 2) script = [0x88, 0xac]))
        (Inr ((mk_result 0 ''P2PKH'' (Some 1))\<lparr>addressHash := Some (slice script 3 (l - 2))\<rparr>))
     (return_if (lazy_and (l = 23)
                  (bind (byte_is script 0 169) (\<lambda>a. lazy_and a (byte_from_end_is script 1 135))))
        (Inr ((mk_result 1 ''P2SH'' None)\<lparr>addressHash := Some (slice script 2 (l - 1))\<rparr>))
     (return_if (lazy_and (l = 67) (byte_from_end_is script 1 172))
        (Inr ((mk_result 2 ''PUBKEY'' (Some 1))\<lparr>addressHash := Some (hash160 (slice script 1 (l - 1)))\<rparr>))
     (return_if (lazy_and (l = 35) (byte_from_end_is script 1 172))
        (Inr ((mk_result 2 ''PUBKEY'' (Some 1))\<lparr>addressHash := Some (hash160 (slice script 1 (l - 1)))\<rparr>))
     (return_if (byte_is script 0 OPCODE_OP_RETURN) (op_return_template script)
     (bind (multisig_template script) (\<lambda>t.
        case t of
          Some r \<Rightarrow> Inr r
        | None \<Rightarrow>
            bind (generic_walk script \<lparr>w_s = 0, w_m = 0, w_n = 0, w_last = 0, w_req_sigs = 0\<rparr>) (\<lambda>w.
            Inr ((mk_result 7 ''NON_STANDARD'' (Some (w_req_sigs w)))\<lparr>script_echo := Some script\<rparr>)))))))))))"

text \<open>
  The fixed P2PKH byte pattern of lines 43--45, named for the proofs.
\<close>

definition p2pkh_template :: "byte list \<Rightarrow> bool" where
  "p2pkh_template script =
     (length script = 25 \<and> take 2 script = [0x76, 0xa9] \<and>
      drop (length script - 2) script = [0x88, 0xac])"

text \<open>
  The count of push units of the interior of a multisig script, written from the words of
  the specification as a recursion over the interior bytes alone: a unit is a byte below
  \<open>0x4c\<close> followed by that many bytes, an interior is a sequence of units, and any other
  byte makes the count fail. Following the code (see \<open>multisig_loop_eq\<close>), a zero byte
  is a unit of its own, and the last unit may declare more bytes than the interior has.
\<close>

function interior_pushes :: "byte list \<Rightarrow> nat option" where
  "interior_pushes [] = Some 0"
| "interior_pushes (b # bs) =
     (if unat b < 0x4c then map_option Suc (interior_pushes (drop (unat b) bs)) else None)"
  by pat_completeness auto
termination
  by (relation "measure length") auto

text \<open>The dictionary of lines 80--81, the result of the multisig template.\<close>

definition multisig_result :: "byte list \<Rightarrow> nat \<Rightarrow> nat \<Rightarrow> script_result" where
  "multisig_result script m n =
     \<lparr>nType = 4, type_name = ''MULTISIG'', reqSigs = Some m, addressHash = None,
      script_echo = Some script, data_payload = None, pubKeys = Some n\<rparr>"

section \<open>The push-data encoder\<close>

text \<open>
  Lines 291--300. \<^verbatim>\<open>int_to_bytes\<close> is a helper of \<^verbatim>\<open>pybtc.functions.tools\<close>, a module
  that is not among the sources: \<open>op_push_data\<close> takes it (with
  \<^verbatim>\<open>byteorder="little"\<close>) as a parameter.
\<close>

definition op_push_data :: "(nat \<Rightarrow> byte list) \<Rightarrow> byte list \<Rightarrow> byte list" where
  "op_push_data int_to_bytes data =
     (if length data \<le> 0x4b then [of_nat (length data)] @ data
      else if length data \<le> 0xff then OP_PUSHDATA1 @ [of_nat (length data)] @ data
      else if length data \<le> 0xffff then OP_PUSHDATA2 @ int_to_bytes (length data) @ data
      else OP_PUSHDATA4 @ int_to_bytes (length data) @ data)"

text \<open>
  Modelled from the spec: \<^verbatim>\<open>int_to_bytes\<close> is missing from the sources. The specification
  of the encoder has a little-endian 2-byte length after \<open>OP_PUSHDATA2\<close> (lengths up to
  65535) and a little-endian 4-byte length after \<open>OP_PUSHDATA4\<close>. This instance is used
  where a closed term is needed; no proof below depends on what it returns.
\<close>

definition int_to_bytes_spec :: "nat \<Rightarrow> byte list" where
  "int_to_bytes_spec n =
     (if n \<le> 0xffff then [of_nat (n mod 256), of_nat (n div 256)]
      else [of_nat (n mod 256), of_nat (n div 256 mod 256), of_nat (n div 65536 mod 256),
            of_nat (n div 16777216)])"

text \<open>The little-endian value of the two and of the four bytes at offset \<open>i\<close>.\<close>

definition le16 :: "byte list \<Rightarrow> nat \<Rightarrow> nat" where
  "le16 script i = unat (script ! i) + 256 * unat (script ! (i + 1))"

definition le32 :: "byte list \<Rightarrow> nat \<Rightarrow> nat" where
  "le32 script i = unat (script ! i) + 256 * unat (script ! (i + 1)) +
     65536 * unat (script ! (i + 2)) + 16777216 * unat (script ! (i + 3))"


section \<open>The push-data decoder\<close>

text \<open>
  \<^verbatim>\<open>stream.read(n)\<close> on the byte stream that \<^verbatim>\<open>get_stream\<close> makes of a script: the next
  \<open>n\<close> bytes, or as many as are left, and the stream after them.
\<close>

definition read :: "byte list \<Rightarrow> nat \<Rightarrow> byte list \<times> byte list" where
  "read stream n = (take n stream, drop n stream)"

text \<open>
  \<^verbatim>\<open>b[0] == OP_PUSHDATA1\<close> in \<^verbatim>\<open>read_opcode\<close> compares the integer \<^verbatim>\<open>b[0]\<close> with a
  \<^verbatim>\<open>bytes\<close> object (see the opcode constants above). In Python an \<^verbatim>\<open>int\<close> and a
  \<^verbatim>\<open>bytes\<close> object are never equal, whatever their values.
\<close>

definition int_eq_bytes :: "nat \<Rightarrow> byte list \<Rightarrow> bool" where
  "int_eq_bytes i b = False"

text \<open>
  Lines 314--328. The result is the returned pair and the stream that is left. In the
  PUSHDATA2 and PUSHDATA4 branches \<^verbatim>\<open>read(2)[0]\<close> is an integer, which \<^verbatim>\<open>unpack\<close> refuses
  with a \<^verbatim>\<open>TypeError\<close>.
\<close>

definition read_opcode ::
  "byte list \<Rightarrow> error + ((byte list option \<times> byte list option) \<times> byte list)" where
  "read_opcode stream =
     (let (b, s1) = read stream 1 in
      if b = [] then Inr ((None, None), s1)
      else bind (byte_at b 0) (\<lambda>b0.
        if b0 \<le> 0x4b then
          (let (d, s2) = read s1 b0 in Inr ((Some b, Some d), s2))
        else if int_eq_bytes b0 OP_PUSHDATA1 then
          (let (n, s2) = read s1 1 in
           bind (byte_at n 0) (\<lambda>k. let (d, s3) = read s2 k in Inr ((Some b, Some d), s3)))
        else if int_eq_bytes b0 OP_PUSHDATA2 then
          (let (n, s2) = read s1 2 in bind (byte_at n 0) (\<lambda>k. Inl TypeError))
        else if int_eq_bytes b0 OP_PUSHDATA4 then
          (let (n, s2) = read s1 4 in bind (byte_at n 0) (\<lambda>k. Inl TypeError))
        else Inr ((Some b, None), s1)))"

section \<open>The subscript remover\<close>

text \<open>
  Lines 234--248: the number that one iteration appends to \<^verbatim>\<open>stack\<close> and adds to \<open>s\<close>.
  The PUSHDATA1 branch counts one byte for opcode and length field together, and the
  PUSHDATA2 and PUSHDATA4 branches unpack the bytes that begin at the opcode itself, as the
  source does.
\<close>

definition unit_length :: "byte list \<Rightarrow> nat \<Rightarrow> error + nat" where
  "unit_length script s =
     bind (byte_at script s) (\<lambda>b.
     if b < 0x4c \<and> b \<noteq> 0 then Inr (b + 1)
     else if b = OPCODE_OP_PUSHDATA1 then
       bind (byte_at script (s + 1)) (\<lambda>ld. Inr (1 + ld))
     else if b = OPCODE_OP_PUSHDATA2 then
       bind (unpack_H (slice script s (s + 2))) (\<lambda>v. Inr (2 + v))
     else if b = OPCODE_OP_PUSHDATA4 then
       bind (unpack_L (slice script s (s + 4))) (\<lambda>v. Inr (4 + v))
     else Inr 1)"

lemma unit_length_pos: "unit_length script s = Inr n \<Longrightarrow> 0 < n"
  by (auto simp: unit_length_def bind_def split: sum.splits if_splits)

text \<open>
  Lines 253--255: \<^verbatim>\<open>while t != s - k: t += stack.pop(0)\<close>; popping from an empty list
  raises \<^verbatim>\<open>IndexError\<close>.
\<close>

fun pop_until :: "nat \<Rightarrow> nat \<Rightarrow> nat \<Rightarrow> nat list \<Rightarrow> error + nat list" where
  "pop_until t k s stack =
     (if t + k \<noteq> s
      then (case stack of [] \<Rightarrow> Inl IndexError | x # xs \<Rightarrow> pop_until (t + x) k s xs)
      else Inr stack)"

text \<open>
  Lines 233--260: the loop, which returns \<open>s\<close>, \<open>k\<close> and \<^verbatim>\<open>result\<close>. The conditions
  \<open>s - k \<ge> ls\<close> and \<open>s - k > ls\<close> of the source are written without subtraction.
\<close>

function delete_loop ::
  "byte list \<Rightarrow> byte list \<Rightarrow> nat \<Rightarrow> nat \<Rightarrow> nat list \<Rightarrow> byte list list \<Rightarrow>
   error + (nat \<times> nat \<times> byte list list)" where
  "delete_loop script sub_script s k stack result =
     (if length script - s > 0
      then (case unit_length script s of
              Inl e \<Rightarrow> Inl e
            | Inr n \<Rightarrow>
                let ls = length sub_script; stack1 = stack @ [n]; s1 = s + n in
                if s1 \<ge> k + ls then
                  if take ls (slice script k s1) = sub_script then
                    (case pop_until 0 k s1 stack1 of
                       Inl e \<Rightarrow> Inl e
                     | Inr stack2 \<Rightarrow>
                         delete_loop script sub_script s1 s1 stack2
                           (if s1 > k + ls then result @ [slice script (k + ls) s1] else result))
                  else
                    (case stack1 of
                       [] \<Rightarrow> Inl IndexError
                     | t # stack2 \<Rightarrow>
                         delete_loop script sub_script s1 (k + t) stack2
                           (result @ [slice script k (k + t)]))
                else delete_loop script sub_script s1 k stack1 result)
      else Inr (s, k, result))"
  by pat_completeness auto
termination
  by (relation "measure (\<lambda>(script, sub_script, s, k, stack, result). length script - s)")
     (auto dest: unit_length_pos)

text \<open>Lines 211--270, for a script and a sub-script given as \<^verbatim>\<open>bytes\<close>.\<close>

definition delete_from_script :: "byte list \<Rightarrow> byte list \<Rightarrow> error + byte list" where
  "delete_from_script script sub_script =
     (if sub_script = [] then Inr script
      else bind (delete_loop script sub_script 0 0 [] []) (\<lambda>(s, k, result).
        let ls = length sub_script in
        Inr (concat
          (if take ls (slice script k s) = sub_script
           then (if s > k + ls then result @ [slice script (k + ls) s] else result)
           else result @ [slice script k (k + ls)]))))"

section \<open>The disassembler\<close>

text \<open>
  \<^verbatim>\<open>'%s' % n\<close> for a non-negative integer (its decimal digits), \<^verbatim>\<open>bytes.hex()\<close> and
  \<^verbatim>\<open>' '.join\<close>.
\<close>

definition digit_char :: "nat \<Rightarrow> char" where
  "digit_char d = char_of (48 + d)"

function str_nat :: "nat \<Rightarrow> string" where
  "str_nat n = (if n < 10 then [digit_char n] else str_nat (n div 10) @ [digit_char (n mod 10)])"
  by pat_completeness auto
termination
  by (relation "measure id") auto

definition hex_digit :: "nat \<Rightarrow> char" where
  "hex_digit d = (if d < 10 then char_of (48 + d) else char_of (87 + d))"

definition hex :: "byte list \<Rightarrow> string" where
  "hex b = concat (map (\<lambda>x. [hex_digit (unat x div 16), hex_digit (unat x mod 16)]) b)"

fun join_space :: "string list \<Rightarrow> string" where
  "join_space [] = []"
| "join_space [x] = x"
| "join_space (x # y # ys) = x @ '' '' @ join_space (y # ys)"

text \<open>\<^verbatim>\<open>"NAME[%s]" % n\<close>, and \<^verbatim>\<open>RAW_OPCODE[b]\<close>, which raises \<^verbatim>\<open>KeyError\<close> for a missing key.\<close>

definition bracket :: "string \<Rightarrow> nat \<Rightarrow> string" where
  "bracket name n = name @ ''['' @ str_nat n @ '']''"

definition lookup :: "(nat \<Rightarrow> string option) \<Rightarrow> nat \<Rightarrow> error + string" where
  "lookup RAW_OPCODE b = (case RAW_OPCODE b of None \<Rightarrow> Inl KeyError | Some name \<Rightarrow> Inr name)"

text \<open>
  Lines 163--205: the loop inside the \<^verbatim>\<open>try\<close>. It returns the list \<^verbatim>\<open>result\<close> as it
  stands when the loop ends or an exception leaves it, and whether an exception was raised.
  \<open>RAW_OPCODE\<close>, the dictionary from opcode values to names of the missing module
  \<^verbatim>\<open>pybtc.opcodes\<close>, is a parameter.
\<close>

function decode_loop ::
  "(nat \<Rightarrow> string option) \<Rightarrow> byte list \<Rightarrow> bool \<Rightarrow> nat \<Rightarrow> string list \<Rightarrow> string list \<times> bool" where
  "decode_loop RAW_OPCODE script asm s result =
     (if length script - s > 0 then
        (case byte_at script s of
           Inl e \<Rightarrow> (result, True)
         | Inr b \<Rightarrow>
           if b < 0x4c \<and> b \<noteq> 0 then
             decode_loop RAW_OPCODE script asm (s + (b + 1))
               (if asm
                then result @ [bracket ''OP_PUSHBYTES'' b, hex (slice script (s + 1) (s + 1 + b))]
                else result @ [bracket [] b])
           else if b = OPCODE_OP_PUSHDATA1 then
             (if asm then
                (case byte_at script (s + 1) of
                   Inl e \<Rightarrow> (result, True)
                 | Inr ld \<Rightarrow>
                     decode_loop RAW_OPCODE script asm (s + (1 + ld + 1))
                       (result @ [bracket ''OP_PUSHDATA1'' ld, hex (slice script (s + 2) (s + 2 + ld))]))
              else
                (case lookup RAW_OPCODE b of
                   Inl e \<Rightarrow> (result, True)
                 | Inr name \<Rightarrow>
                     (case byte_at script (s + 1) of
                        Inl e \<Rightarrow> (result @ [name], True)
                      | Inr ld \<Rightarrow>
                          decode_loop RAW_OPCODE script asm (s + (1 + ld + 1))
                            (result @ [name, bracket [] ld]))))
           else if b = OPCODE_OP_PUSHDATA2 then
             (case unpack_H (slice script (s + 1) (s + 3)) of
                Inl e \<Rightarrow> (result, True)
              | Inr ld \<Rightarrow>
                  if asm then
                    decode_loop RAW_OPCODE script asm (s + (2 + 1 + ld))
                      (result @ [bracket ''OP_PUSHDATA2'' ld, hex (slice script (s + 3) (s + 3 + ld))])
                  else
                    (case lookup RAW_OPCODE b of
                       Inl e \<Rightarrow> (result, True)
                     | Inr name \<Rightarrow>
                         decode_loop RAW_OPCODE script asm (s + (2 + 1 + ld))
                           (result @ [name, bracket [] ld])))
           else if b = OPCODE_OP_PUSHDATA4 then
             (case unpack_L (slice script (s + 1) (s + 5)) of
                Inl e \<Rightarrow> (result, True)
              | Inr ld \<Rightarrow>
                  if asm then
                    decode_loop RAW_OPCODE script asm (s + (5 + 1 + ld))
                      (result @ [bracket ''OP_PUSHDATA4'' ld, hex (slice script (s + 5) (s + 5 + ld))])
                  else
                    (case lookup RAW_OPCODE b of
                       Inl e \<Rightarrow> (result, True)
                     | Inr name \<Rightarrow>
                         decode_loop RAW_OPCODE script asm (s + (5 + 1 + ld))
                           (result @ [name, bracket [] ld])))
           else
             (case lookup RAW_OPCODE b of
                Inl e \<Rightarrow> (result, True)
              | Inr name \<Rightarrow> decode_loop RAW_OPCODE script asm (s + 1) (result @ [name])))
      else (result, False))"
  by pat_completeness auto
termination
  by (relation "measure (\<lambda>(RAW_OPCODE, script, asm, s, result). length script - s)") auto

text \<open>Lines 148--208: the \<^verbatim>\<open>except\<close> clause appends the failure token to \<^verbatim>\<open>result\<close>.\<close>

definition decode_script :: "(nat \<Rightarrow> string option) \<Rightarrow> byte list \<Rightarrow> bool \<Rightarrow> string" where
  "decode_script RAW_OPCODE script asm =
     (case decode_loop RAW_OPCODE script asm 0 [] of
        (result, raised) \<Rightarrow>
          join_space (if raised then result @ [''[SCRIPT_DECODE_FAILED]''] else result))"

text \<open>
  Modelled from the spec: \<^verbatim>\<open>RAW_OPCODE\<close> is missing from the sources. This table has the
  names and values of the specification's table of opcode constants; it is used where a
  closed term is needed.
\<close>

definition RAW_OPCODE_spec :: "nat \<Rightarrow> string option" where
  "RAW_OPCODE_spec =
     map_of
       ([(0x4c, ''OP_PUSHDATA1''), (0x4d, ''OP_PUSHDATA2''), (0x4e, ''OP_PUSHDATA4''),
         (0x6a, ''OP_RETURN''), (0x76, ''OP_DUP''), (0x87, ''OP_EQUAL''),
         (0x88, ''OP_EQUALVERIFY''), (0xa9, ''OP_HASH160''), (0xac, ''OP_CHECKSIG''),
         (0xad, ''OP_CHECKSIGVERIFY''), (0xae, ''OP_CHECKMULTISIG''),
         (0xaf, ''OP_CHECKMULTISIGVERIFY'')] @
        map (\<lambda>k. (0x50 + k, ''OP_'' @ str_nat k)) [1 ..< 17])"

text \<open>
  The structural checks of both functions as one predicate over plain list indexing. It is
  a device of the proofs below: \<open>valid_eq\<close> and \<open>parse_eq\<close> show that each function
  computes it, reading only bytes that exist.
\<close>

definition sig_checks :: "byte list \<Rightarrow> bool" where
  "sig_checks sig =
     (let n = length sig; len_r = unat (sig ! 3); len_s = unat (sig ! (5 + len_r)) in
      \<not> (n < 9 \<or> n > 73) \<and> unat (sig ! 0) = 0x30 \<and> unat (sig ! 1) = n - 3 \<and>
      \<not> (5 + len_r \<ge> n) \<and> len_r + len_s + 7 = n \<and> unat (sig ! 2) = 0x02 \<and> len_r \<noteq> 0 \<and>
      unat (sig ! 4) AND 0x80 = 0 \<and>
      \<not> (1 < len_r \<and> unat (sig ! 4) = 0 \<and> unat (sig ! 5) AND 0x80 = 0) \<and>
      unat (sig ! (len_r + 4)) = 0x02 \<and> len_s \<noteq> 0 \<and>
      unat (sig ! (len_r + 6)) AND 0x80 = 0 \<and>
      \<not> (1 < len_s \<and> unat (sig ! (len_r + 6)) = 0 \<and> unat (sig ! (len_r + 6 + 1)) AND 0x80 = 0))"

section \<open>Reads that cannot fail\<close>

lemma bind_Inr [simp]: "bind (Inr x) f = f x"
  by (simp add: bind_def)

lemma bind_Inl [simp]: "bind (Inl e) f = Inl e"
  by (simp add: bind_def)

lemma byte_at_in: "i < length b \<Longrightarrow> byte_at b i = Inr (unat (b ! i))"
  by (simp add: byte_at_def)

lemma byte_at_0: "b \<noteq> [] \<Longrightarrow> byte_at b 0 = Inr (unat (b ! 0))"
  by (simp add: byte_at_def)

lemma null_padded_in:
  "i < length sig \<Longrightarrow> (1 < n \<Longrightarrow> i + 1 < length sig) \<Longrightarrow>
   null_padded sig n i = Inr (1 < n \<and> unat (sig ! i) = 0 \<and> unat (sig ! (i + 1)) AND 0x80 = 0)"
  by (simp add: null_padded_def byte_at_in)

declare generic_walk.simps [simp del] multisig_loop.simps [simp del]
  delete_loop.simps [simp del] decode_loop.simps [simp del] str_nat.simps [simp del]
  pop_until.simps [simp del]

lemma return_if_Inr [simp]: "return_if (Inr b) r k = (if b then r else k)"
  by (simp add: return_if_def)

lemma lazy_and_simps [simp]: "lazy_and True e = e" "lazy_and False e = Inr False"
  by (simp_all add: lazy_and_def)

lemma byte_is_0 [simp]: "script \<noteq> [] \<Longrightarrow> byte_is script 0 v = Inr (unat (script ! 0) = v)"
  by (simp add: byte_is_def byte_at_0)

lemma byte_from_end_1: "script \<noteq> [] \<Longrightarrow> byte_from_end script 1 = Inr (unat (last script))"
  by (simp add: byte_from_end_def last_conv_nth Suc_le_eq)

lemma byte_from_end_Suc0: "script \<noteq> [] \<Longrightarrow> byte_from_end script (Suc 0) = Inr (unat (last script))"
  by (simp add: byte_from_end_def last_conv_nth Suc_le_eq)

lemma byte_from_end_is_1 [simp]:
  "script \<noteq> [] \<Longrightarrow> byte_from_end_is script (Suc 0) v = Inr (unat (last script) = v)"
  by (simp add: byte_from_end_is_def byte_from_end_def last_conv_nth Suc_le_eq)

lemma byte_from_end_2: "2 \<le> length script \<Longrightarrow> byte_from_end script 2 = Inr (unat (script ! (length script - 2)))"
  by (simp add: byte_from_end_def)

section \<open>The classifier never raises\<close>

lemma op_return_total:
  "script \<noteq> [] \<Longrightarrow> \<exists>r. op_return_template script = Inr r \<and>
     (type_name r = ''NULL_DATA'' \<or> type_name r = ''NULL_DATA_NON_STANDARD'')"
  by (cases script) (auto simp: op_return_template_def Let_def byte_at_def mk_result_def)

lemma multisig_loop_total: "\<exists>k. multisig_loop script c s = Inr k"
proof (induction script c s rule: multisig_loop.induct)
  case (1 script c s)
  show ?case
  proof (cases "length script - 2 - s > 0")
    case False
    then show ?thesis by (subst multisig_loop.simps) simp
  next
    case True
    then have lt: "s < length script" by simp
    show ?thesis
    proof (cases "unat (script ! s) < 0x4c")
      case True
      with 1 [OF \<open>length script - 2 - s > 0\<close> byte_at_in [OF lt] True] lt \<open>length script - 2 - s > 0\<close>
      show ?thesis by (subst multisig_loop.simps) (simp add: byte_at_in)
    next
      case False
      with lt \<open>length script - 2 - s > 0\<close> show ?thesis
        by (subst multisig_loop.simps) (simp add: byte_at_in)
    qed
  qed
qed

lemma multisig_template_total:
  assumes "script \<noteq> []"
  shows "\<exists>t. multisig_template script = Inr t"
proof (cases "length script = 1")
  case True
  then have "last script = script ! 0" by (simp add: last_conv_nth assms)
  then show ?thesis
    using assms by (auto simp: multisig_template_def byte_at_0 byte_from_end_1 byte_from_end_Suc0)
next
  case False
  with assms have "2 \<le> length script"
    by (cases script) (auto simp: Suc_le_eq)
  then show ?thesis
    using assms multisig_loop_total [of script 0 1]
    by (auto simp: multisig_template_def byte_at_0 byte_from_end_1 byte_from_end_Suc0 byte_from_end_2)
qed

lemma generic_step_total:
  "w_s w < length script \<Longrightarrow> \<exists>r. generic_step script w = Inr r"
  by (auto simp: generic_step_def byte_at_in split: sum.splits)

lemma generic_walk_total: "\<exists>w'. generic_walk script w = Inr w'"
proof (induction script w rule: generic_walk.induct)
  case (1 script w)
  show ?case
  proof (cases "length script - w_s w > 0")
    case False
    then show ?thesis by (subst generic_walk.simps) simp
  next
    case True
    then have "w_s w < length script" by simp
    then obtain r where r: "generic_step script w = Inr r"
      using generic_step_total by blast
    show ?thesis
    proof (cases r)
      case None
      with r True show ?thesis by (subst generic_walk.simps) simp
    next
      case (Some w')
      with r True 1 [OF True, of r w'] show ?thesis by (subst generic_walk.simps) simp
    qed
  qed
qed

lemma parse_script_unfold:
  assumes "script \<noteq> []"
  shows "parse_script hash160 script segwit =
     (let l = length script; b0 = unat (script ! 0); e = unat (last script) in
      if segwit \<and> l = 22 \<and> b0 = 0
      then Inr ((mk_result 5 ''P2WPKH'' (Some 1))\<lparr>addressHash := Some (drop 2 script)\<rparr>)
      else if segwit \<and> l = 34 \<and> b0 = 0
      then Inr ((mk_result 6 ''P2WSH'' None)\<lparr>addressHash := Some (drop 2 script)\<rparr>)
      else if l = 25 \<and> take 2 script = [0x76, 0xa9] \<and> drop (l - 2) script = [0x88, 0xac]
      then Inr ((mk_result 0 ''P2PKH'' (Some 1))\<lparr>addressHash := Some (slice script 3 (l - 2))\<rparr>)
      else if l = 23 \<and> b0 = 169 \<and> e = 135
      then Inr ((mk_result 1 ''P2SH'' None)\<lparr>addressHash := Some (slice script 2 (l - 1))\<rparr>)
      else if l = 67 \<and> e = 172
      then Inr ((mk_result 2 ''PUBKEY'' (Some 1))\<lparr>addressHash := Some (hash160 (slice script 1 (l - 1)))\<rparr>)
      else if l = 35 \<and> e = 172
      then Inr ((mk_result 2 ''PUBKEY'' (Some 1))\<lparr>addressHash := Some (hash160 (slice script 1 (l - 1)))\<rparr>)
      else if b0 = 0x6a then op_return_template script
      else bind (multisig_template script) (\<lambda>t.
        case t of
          Some r \<Rightarrow> Inr r
        | None \<Rightarrow>
            bind (generic_walk script \<lparr>w_s = 0, w_m = 0, w_n = 0, w_last = 0, w_req_sigs = 0\<rparr>) (\<lambda>w.
            Inr ((mk_result 7 ''NON_STANDARD'' (Some (w_req_sigs w)))\<lparr>script_echo := Some script\<rparr>))))"
  using assms by (auto simp add: parse_script_def Let_def lazy_and_def simp del: generic_walk.simps multisig_loop.simps)


section \<open>Which template a result comes from\<close>

lemma multisig_template_type:
  "multisig_template script = Inr (Some r) \<Longrightarrow> type_name r = ''MULTISIG''"
  by (auto simp: multisig_template_def bind_def mk_result_def split: sum.splits if_splits)

lemma parse_script_unfold':
  assumes "script \<noteq> []"
  shows "parse_script hash160 script segwit =
     (if segwit \<and> length script = 22 \<and> unat (script ! 0) = 0
      then Inr ((mk_result 5 ''P2WPKH'' (Some 1))\<lparr>addressHash := Some (drop 2 script)\<rparr>)
      else if segwit \<and> length script = 34 \<and> unat (script ! 0) = 0
      then Inr ((mk_result 6 ''P2WSH'' None)\<lparr>addressHash := Some (drop 2 script)\<rparr>)
      else if p2pkh_template script
      then Inr ((mk_result 0 ''P2PKH'' (Some 1))\<lparr>addressHash := Some (slice script 3 (length script - 2))\<rparr>)
      else if length script = 23 \<and> unat (script ! 0) = 169 \<and> unat (last script) = 135
      then Inr ((mk_result 1 ''P2SH'' None)\<lparr>addressHash := Some (slice script 2 (length script - 1))\<rparr>)
      else if length script = 67 \<and> unat (last script) = 172
      then Inr ((mk_result 2 ''PUBKEY'' (Some 1))
                  \<lparr>addressHash := Some (hash160 (slice script 1 (length script - 1)))\<rparr>)
      else if length script = 35 \<and> unat (last script) = 172
      then Inr ((mk_result 2 ''PUBKEY'' (Some 1))
                  \<lparr>addressHash := Some (hash160 (slice script 1 (length script - 1)))\<rparr>)
      else if unat (script ! 0) = 0x6a then op_return_template script
      else bind (multisig_template script) (\<lambda>t.
        case t of
          Some r \<Rightarrow> Inr r
        | None \<Rightarrow>
            bind (generic_walk script \<lparr>w_s = 0, w_m = 0, w_n = 0, w_last = 0, w_req_sigs = 0\<rparr>) (\<lambda>w.
            Inr ((mk_result 7 ''NON_STANDARD'' (Some (w_req_sigs w)))\<lparr>script_echo := Some script\<rparr>))))"
  unfolding parse_script_unfold [OF assms] Let_def p2pkh_template_def ..

lemma peelE:
  assumes "(if c then Inr a else k) = Inr r"
  obtains (hit) "c" "r = a" | (miss) "\<not> c" "k = Inr r"
  using assms by (cases c) auto

lemma p2pkh_only_by_template:
  assumes p: "parse_script hash160 script segwit = Inr r" and t: "type_name r = ''P2PKH''"
  shows "p2pkh_template script"
proof (cases "script = []")
  case True
  with assms show ?thesis by (auto simp: parse_script_def mk_result_def)
next
  case False
  note u = p [unfolded parse_script_unfold' [OF False]]
  from op_return_total [OF False] have o: "op_return_template script = Inr r \<Longrightarrow> False"
    using t by auto
  from u t o show ?thesis
    by (elim peelE)
       (auto simp: mk_result_def bind_def split: if_splits sum.splits option.splits
          dest!: multisig_template_type)
qed

lemma p2pkh_template_iff:
  "p2pkh_template script \<longleftrightarrow>
     length script = 25 \<and> take 2 script = [0x76, 0xa9] \<and> drop 23 script = [0x88, 0xac]"
  by (auto simp: p2pkh_template_def)

section \<open>The interior walk of the multisig template counts push units\<close>

lemma case_map_Suc:
  "(case map_option Suc x of None \<Rightarrow> 0 | Some k \<Rightarrow> c + k) =
   (case x of None \<Rightarrow> 0 | Some k \<Rightarrow> Suc c + k)"
  by (cases x) auto

lemma multisig_loop_eq:
  "multisig_loop script c s =
     Inr (case interior_pushes (drop s (take (length script - 2) script)) of
            None \<Rightarrow> 0 | Some k \<Rightarrow> c + k)"
proof (induction script c s rule: multisig_loop.induct)
  case (1 script c s)
  let ?xs = "take (length script - 2) script"
  show ?case
  proof (cases "length script - 2 - s > 0")
    case False
    then have "drop s ?xs = []" by simp
    with False show ?thesis by (subst multisig_loop.simps) simp
  next
    case True
    then have lt: "s < length script" and lt2: "s < length ?xs" by simp_all
    have d: "drop s ?xs = script ! s # drop (Suc s) ?xs"
      using lt2 by (simp add: Cons_nth_drop_Suc [symmetric])
    show ?thesis
    proof (cases "unat (script ! s) < 0x4c")
      case False
      with True lt d show ?thesis
        by (subst multisig_loop.simps) (simp add: byte_at_in)
    next
      case b: True
      have ih: "multisig_loop script (c + 1) (s + unat (script ! s) + 1) =
         Inr (case interior_pushes (drop (s + unat (script ! s) + 1) ?xs) of
            None \<Rightarrow> 0 | Some k \<Rightarrow> c + 1 + k)"
        using 1 [OF True byte_at_in [OF lt] b] .
      have dd: "drop (unat (script ! s)) (drop (Suc s) ?xs) = drop (s + unat (script ! s) + 1) ?xs"
        by (simp add: add.commute add.left_commute)
      have e: "interior_pushes (drop s ?xs) =
          map_option Suc (interior_pushes (drop (s + unat (script ! s) + 1) ?xs))"
        using b by (simp add: d dd del: drop_drop)
      have "multisig_loop script c s = multisig_loop script (c + 1) (s + unat (script ! s) + 1)"
        using True lt b by (subst multisig_loop.simps) (simp add: byte_at_in)
      also note ih
      finally show ?thesis
        by (cases "interior_pushes (drop (s + unat (script ! s) + 1) ?xs)") (simp_all add: e)
    qed
  qed
qed

lemma slice_interior:
  "slice script (Suc 0) (length script - 2) = drop (Suc 0) (take (length script - 2) script)"
  by (simp add: slice_def drop_take)

lemma multisig_template_eq:
  assumes "script \<noteq> []"
  shows "multisig_template script =
     Inr (let b0 = unat (script ! 0); e2 = unat (script ! (length script - 2)) in
          if 2 \<le> length script \<and> 81 \<le> b0 \<and> b0 \<le> 96 \<and> unat (last script) = 174 \<and>
             81 \<le> e2 \<and> e2 \<le> 96 \<and> b0 \<le> e2 \<and>
             interior_pushes (slice script 1 (length script - 2)) = Some (e2 - 80)
          then Some ((mk_result 4 ''MULTISIG'' (Some (b0 - 80)))
                       \<lparr>pubKeys := Some (e2 - 80), script_echo := Some script\<rparr>)
          else None)"
proof (cases "length script = 1")
  case True
  then have "last script = script ! 0" by (simp add: last_conv_nth assms)
  then show ?thesis
    using assms True by (auto simp: multisig_template_def byte_at_0 byte_from_end_Suc0 Let_def)
next
  case False
  with assms have l2: "2 \<le> length script"
    by (cases script) (auto simp: Suc_le_eq)
  have m: "multisig_loop script 0 (Suc 0) =
      Inr (case interior_pushes (slice script 1 (length script - 2)) of None \<Rightarrow> 0 | Some k \<Rightarrow> k)"
    using multisig_loop_eq [of script 0 1] by (simp add: slice_interior cong: option.case_cong)
  show ?thesis
    using assms l2
    by (cases "interior_pushes (slice script 1 (length script - 2))")
       (auto simp: multisig_template_def byte_at_0 byte_from_end_Suc0 byte_from_end_2 Let_def m)
qed

section \<open>The multisig template\<close>

lemma multisig_only_by_template:
  assumes p: "parse_script hash160 script segwit = Inr r" and t: "type_name r = ''MULTISIG''"
  shows "script \<noteq> [] \<and> multisig_template script = Inr (Some r)"
proof (cases "script = []")
  case True
  with assms show ?thesis by (auto simp: parse_script_def mk_result_def)
next
  case False
  note u = p [unfolded parse_script_unfold' [OF False]]
  from op_return_total [OF False] have o: "op_return_template script = Inr r \<Longrightarrow> False"
    using t by auto
  from u t o False show ?thesis
    by (elim peelE)
       (auto simp: mk_result_def bind_def split: if_splits sum.splits option.splits)
qed

lemma multisig_template_reaches:
  assumes ne: "script \<noteq> []" and b0: "81 \<le> unat (script ! 0)" "unat (script ! 0) \<le> 96"
    and e: "unat (last script) = 174"
  shows "parse_script hash160 script segwit =
      bind (multisig_template script) (\<lambda>t.
        case t of
          Some r \<Rightarrow> Inr r
        | None \<Rightarrow>
            bind (generic_walk script \<lparr>w_s = 0, w_m = 0, w_n = 0, w_last = 0, w_req_sigs = 0\<rparr>) (\<lambda>w.
            Inr ((mk_result 7 ''NON_STANDARD'' (Some (w_req_sigs w)))\<lparr>script_echo := Some script\<rparr>)))"
proof -
  have "\<not> p2pkh_template script"
  proof
    assume "p2pkh_template script"
    then have "take 2 script = [0x76, 0xa9]" by (simp add: p2pkh_template_def)
    then have "script ! 0 = 0x76" using ne by (cases script) auto
    with b0 show False by simp
  qed
  then show ?thesis
    using b0 e by (simp add: parse_script_unfold' [OF ne])
qed

lemma multisig_iff:
  "parse_script hash160 script segwit = Inr (multisig_result script m n) \<longleftrightarrow>
     2 \<le> length script \<and> unat (script ! 0) = 80 + m \<and> 1 \<le> m \<and> m \<le> n \<and> n \<le> 16 \<and>
     unat (script ! (length script - 2)) = 80 + n \<and> unat (last script) = 174 \<and>
     interior_pushes (slice script 1 (length script - 2)) = Some n"
  (is "?L \<longleftrightarrow> ?R")
proof
  assume ?L
  then have "script \<noteq> []" and "multisig_template script = Inr (Some (multisig_result script m n))"
    using multisig_only_by_template [of hash160 script segwit "multisig_result script m n"]
    by (simp_all add: multisig_result_def)
  then show ?R
    by (auto simp: multisig_template_eq Let_def multisig_result_def mk_result_def split: if_splits)
next
  assume r: ?R
  then have ne: "script \<noteq> []" by auto
  from r have "multisig_template script = Inr (Some (multisig_result script m n))"
    by (simp add: multisig_template_eq [OF ne] Let_def multisig_result_def mk_result_def)
  moreover from r have "parse_script hash160 script segwit =
      bind (multisig_template script) (\<lambda>t.
        case t of
          Some r \<Rightarrow> Inr r
        | None \<Rightarrow>
            bind (generic_walk script \<lparr>w_s = 0, w_m = 0, w_n = 0, w_last = 0, w_req_sigs = 0\<rparr>) (\<lambda>w.
            Inr ((mk_result 7 ''NON_STANDARD'' (Some (w_req_sigs w)))\<lparr>script_echo := Some script\<rparr>)))"
    by (intro multisig_template_reaches [OF ne]) auto
  ultimately show ?L by simp
qed

lemma multisig_result_shape:
  assumes "parse_script hash160 script segwit = Inr r" "type_name r = ''MULTISIG''"
  shows "\<exists>m n. r = multisig_result script m n"
  using multisig_only_by_template [OF assms]
  by (auto simp: multisig_template_eq Let_def multisig_result_def mk_result_def split: if_splits)


lemma unat_length_byte: "n \<le> 75 \<Longrightarrow> unat (of_nat n :: byte) = n"
  by (simp add: unat_of_nat)

lemma interior_pushes_push:
  "length p \<le> 75 \<Longrightarrow>
   interior_pushes (op_push_data f p @ rest) = map_option Suc (interior_pushes rest)"
  by (simp add: op_push_data_def unat_length_byte)

lemma two_of_three:
  assumes "length pub1 \<le> 75" "length pub2 \<le> 75" "length pub3 \<le> 75"
  shows "parse_script hash160
           ([0x52] @ op_push_data f pub1 @ op_push_data f pub2 @ op_push_data f pub3 @ [0x53, 0xae])
           segwit =
         Inr (multisig_result
           ([0x52] @ op_push_data f pub1 @ op_push_data f pub2 @ op_push_data f pub3 @ [0x53, 0xae])
           2 3)"
proof -
  let ?i = "op_push_data f pub1 @ op_push_data f pub2 @ op_push_data f pub3"
  let ?s = "[0x52] @ op_push_data f pub1 @ op_push_data f pub2 @ op_push_data f pub3 @ [0x53, 0xae]"
  have s: "?s = [0x52] @ ?i @ [0x53, 0xae]" by simp
  have i: "interior_pushes ?i = Some 3"
    using assms interior_pushes_push [of pub3 f "[]"]
    by (simp add: interior_pushes_push)
  have sl: "slice ?s 1 (length ?s - 2) = ?i"
    unfolding s by (simp add: slice_def)
  have n2: "?s ! (length ?s - 2) = 0x53"
    unfolding s by (simp add: nth_append)
  have la: "last ?s = 0xae" by simp
  have "2 \<le> length ?s \<and> unat (?s ! 0) = 80 + 2 \<and> (1::nat) \<le> 2 \<and> (2::nat) \<le> 3 \<and> (3::nat) \<le> 16 \<and>
     unat (?s ! (length ?s - 2)) = 80 + 3 \<and> unat (last ?s) = 174 \<and>
     interior_pushes (slice ?s 1 (length ?s - 2)) = Some 3"
    unfolding sl n2 i la by simp
  then show ?thesis by (rule iffD2 [OF multisig_iff])
qed


lemma multisig_fallthrough:
  assumes ne: "script \<noteq> []" and b0: "81 \<le> unat (script ! 0)" "unat (script ! 0) \<le> 96"
    and e: "unat (last script) = 174"
    and no: "\<forall>m n. parse_script hash160 script segwit \<noteq> Inr (multisig_result script m n)"
  shows "\<exists>w. generic_walk script \<lparr>w_s = 0, w_m = 0, w_n = 0, w_last = 0, w_req_sigs = 0\<rparr> = Inr w \<and>
     parse_script hash160 script segwit =
       Inr \<lparr>nType = 7, type_name = ''NON_STANDARD'', reqSigs = Some (w_req_sigs w),
            addressHash = None, script_echo = Some script, data_payload = None, pubKeys = None\<rparr>"
proof -
  note p = multisig_template_reaches [OF ne b0 e, of hash160 segwit]
  obtain t where t: "multisig_template script = Inr t"
    using multisig_template_total [OF ne] by blast
  obtain w where w: "generic_walk script \<lparr>w_s = 0, w_m = 0, w_n = 0, w_last = 0, w_req_sigs = 0\<rparr> = Inr w"
    using generic_walk_total by blast
  show ?thesis
  proof (cases t)
    case None
    with p t w show ?thesis by (simp add: mk_result_def)
  next
    case (Some r)
    with p t have pr: "parse_script hash160 script segwit = Inr r" by simp
    moreover have "type_name r = ''MULTISIG''"
      using t Some multisig_template_type by blast
    ultimately obtain m n where "r = multisig_result script m n"
      using multisig_result_shape by blast
    with pr no show ?thesis by blast
  qed
qed

text \<open>
  Claim C4 (amended). \<open>parse_script\<close> classifies a script as MULTISIG with
  \<open>reqSigs = m\<close> and \<open>pubKeys = n\<close> exactly when the first byte is the small-integer
  opcode of \<open>m\<close> (1 to 16), the last byte is \<open>OP_CHECKMULTISIG\<close>, the second-to-last
  byte is the small-integer opcode of \<open>n\<close> with \<open>n \<ge> m\<close>, and the walk over the
  interior counts exactly \<open>n\<close> units. A unit is a byte below \<open>0x4c\<close> followed by that
  many bytes: a zero byte is a unit (a zero-length push), and the last unit may declare
  more bytes than the interior has. Every MULTISIG result has this form; a script with such
  a first and last byte that does not match gets the NON_STANDARD result of the generic
  walk. In particular \<open>OP_2 <pub1> <pub2> <pub3> OP_3 OP_CHECKMULTISIG\<close>, each key pushed
  by \<open>op_push_data\<close> and at most 75 bytes long, is MULTISIG with \<open>reqSigs = 2\<close> and
  \<open>pubKeys = 3\<close>.
\<close>

theorem multisig_classification:
  "(parse_script hash160 script segwit = Inr (multisig_result script m n) \<longleftrightarrow>
      2 \<le> length script \<and> unat (script ! 0) = 80 + m \<and> 1 \<le> m \<and> m \<le> n \<and> n \<le> 16 \<and>
      unat (script ! (length script - 2)) = 80 + n \<and> unat (last script) = 174 \<and>
      interior_pushes (slice script 1 (length script - 2)) = Some n) \<and>
   (\<forall>r. parse_script hash160 script segwit = Inr r \<and> type_name r = ''MULTISIG'' \<longrightarrow>
      (\<exists>m n. r = multisig_result script m n)) \<and>
   (script \<noteq> [] \<and> 81 \<le> unat (script ! 0) \<and> unat (script ! 0) \<le> 96 \<and> unat (last script) = 174 \<and>
    (\<forall>m n. parse_script hash160 script segwit \<noteq> Inr (multisig_result script m n)) \<longrightarrow>
      (\<exists>w. generic_walk script \<lparr>w_s = 0, w_m = 0, w_n = 0, w_last = 0, w_req_sigs = 0\<rparr> = Inr w \<and>
         parse_script hash160 script segwit =
           Inr \<lparr>nType = 7, type_name = ''NON_STANDARD'', reqSigs = Some (w_req_sigs w),
                addressHash = None, script_echo = Some script, data_payload = None,
                pubKeys = None\<rparr>)) \<and>
   (length pub1 \<le> 75 \<and> length pub2 \<le> 75 \<and> length pub3 \<le> 75 \<longrightarrow>
      parse_script hash160
        ([0x52] @ op_push_data f pub1 @ op_push_data f pub2 @ op_push_data f pub3 @ [0x53, 0xae])
        segwit =
      Inr (multisig_result
        ([0x52] @ op_push_data f pub1 @ op_push_data f pub2 @ op_push_data f pub3 @ [0x53, 0xae])
        2 3))"
proof (intro conjI)
  show "parse_script hash160 script segwit = Inr (multisig_result script m n) \<longleftrightarrow>
      2 \<le> length script \<and> unat (script ! 0) = 80 + m \<and> 1 \<le> m \<and> m \<le> n \<and> n \<le> 16 \<and>
      unat (script ! (length script - 2)) = 80 + n \<and> unat (last script) = 174 \<and>
      interior_pushes (slice script 1 (length script - 2)) = Some n"
    by (rule multisig_iff)
  show "\<forall>r. parse_script hash160 script segwit = Inr r \<and> type_name r = ''MULTISIG'' \<longrightarrow>
      (\<exists>m n. r = multisig_result script m n)"
    using multisig_result_shape by blast
  show "script \<noteq> [] \<and> 81 \<le> unat (script ! 0) \<and> unat (script ! 0) \<le> 96 \<and> unat (last script) = 174 \<and>
    (\<forall>m n. parse_script hash160 script segwit \<noteq> Inr (multisig_result script m n)) \<longrightarrow>
      (\<exists>w. generic_walk script \<lparr>w_s = 0, w_m = 0, w_n = 0, w_last = 0, w_req_sigs = 0\<rparr> = Inr w \<and>
         parse_script hash160 script segwit =
           Inr \<lparr>nType = 7, type_name = ''NON_STANDARD'', reqSigs = Some (w_req_sigs w),
                addressHash = None, script_echo = Some script, data_payload = None,
                pubKeys = None\<rparr>)"
    using multisig_fallthrough by blast
  show "length pub1 \<le> 75 \<and> length pub2 \<le> 75 \<and> length pub3 \<le> 75 \<longrightarrow>
      parse_script hash160
        ([0x52] @ op_push_data f pub1 @ op_push_data f pub2 @ op_push_data f pub3 @ [0x53, 0xae])
        segwit =
      Inr (multisig_result
        ([0x52] @ op_push_data f pub1 @ op_push_data f pub2 @ op_push_data f pub3 @ [0x53, 0xae])
        2 3)"
    using two_of_three by blast
qed

text \<open>
  The claim as stated fails where it excludes zero-length pushes and asks for an interior
  of exactly \<open>n\<close> whole units: \<open>OP_1 OP_0 OP_1 OP_CHECKMULTISIG\<close> is MULTISIG (its one
  unit is the zero-length push \<open>0x00\<close>), and so is \<open>51 4b 51 ae\<close>, whose one unit
  declares 75 bytes where the interior has none.
\<close>

theorem multisig_zero_length_push:
  "parse_script id [0x51, 0x00, 0x51, 0xae] True = Inr (multisig_result [0x51, 0x00, 0x51, 0xae] 1 1) \<and>
   parse_script id [0x51, 0x4b, 0x51, 0xae] True = Inr (multisig_result [0x51, 0x4b, 0x51, 0xae] 1 1)"
  by (simp add: multisig_iff slice_def)

theorem multisig_classification_witness:
  "parse_script id
     ([0x52] @ op_push_data int_to_bytes_spec (replicate 33 0x02) @
      op_push_data int_to_bytes_spec (replicate 33 0x03) @
      op_push_data int_to_bytes_spec (replicate 33 0x04) @ [0x53, 0xae]) True =
   Inr (multisig_result
     ([0x52] @ op_push_data int_to_bytes_spec (replicate 33 0x02) @
      op_push_data int_to_bytes_spec (replicate 33 0x03) @
      op_push_data int_to_bytes_spec (replicate 33 0x04) @ [0x53, 0xae]) 2 3) \<and>
   parse_script id [0x52, 0x01, 0xaa, 0x01, 0xbb, 0x52, 0xae] True =
     Inr (multisig_result [0x52, 0x01, 0xaa, 0x01, 0xbb, 0x52, 0xae] 2 2) \<and>
   (\<exists>w. generic_walk [0x52, 0x01, 0xaa, 0x53, 0xae] \<lparr>w_s = 0, w_m = 0, w_n = 0, w_last = 0, w_req_sigs = 0\<rparr> = Inr w \<and>
     parse_script id [0x52, 0x01, 0xaa, 0x53, 0xae] True =
       Inr \<lparr>nType = 7, type_name = ''NON_STANDARD'', reqSigs = Some (w_req_sigs w),
            addressHash = None, script_echo = Some [0x52, 0x01, 0xaa, 0x53, 0xae],
            data_payload = None, pubKeys = None\<rparr>)"
proof -
  note t = multisig_classification [of id _ True _ _ _ _ _ int_to_bytes_spec]
  have a: "length (replicate 33 (0x02 :: byte)) \<le> 75 \<and> length (replicate 33 (0x03 :: byte)) \<le> 75 \<and>
      length (replicate 33 (0x04 :: byte)) \<le> 75" by simp
  have 1: "parse_script id
     ([0x52] @ op_push_data int_to_bytes_spec (replicate 33 0x02) @
      op_push_data int_to_bytes_spec (replicate 33 0x03) @
      op_push_data int_to_bytes_spec (replicate 33 0x04) @ [0x53, 0xae]) True =
   Inr (multisig_result
     ([0x52] @ op_push_data int_to_bytes_spec (replicate 33 0x02) @
      op_push_data int_to_bytes_spec (replicate 33 0x03) @
      op_push_data int_to_bytes_spec (replicate 33 0x04) @ [0x53, 0xae]) 2 3)"
    using t [of "[]" 0 0 "replicate 33 0x02" "replicate 33 0x03" "replicate 33 0x04"] a by blast
  have 2: "parse_script id [0x52, 0x01, 0xaa, 0x01, 0xbb, 0x52, 0xae] True =
     Inr (multisig_result [0x52, 0x01, 0xaa, 0x01, 0xbb, 0x52, 0xae] 2 2)"
    using t [of "[0x52, 0x01, 0xaa, 0x01, 0xbb, 0x52, 0xae]" 2 2 "[]" "[]" "[]"]
    by (simp add: slice_def)
  have n: "\<forall>m n. parse_script id [0x52, 0x01, 0xaa, 0x53, 0xae] True \<noteq>
      Inr (multisig_result [0x52, 0x01, 0xaa, 0x53, 0xae] m n)"
    using t [of "[0x52, 0x01, 0xaa, 0x53, 0xae]" _ _ "[]" "[]" "[]"]
    by (simp add: slice_def)
  have 3: "\<exists>w. generic_walk [0x52, 0x01, 0xaa, 0x53, 0xae] \<lparr>w_s = 0, w_m = 0, w_n = 0, w_last = 0, w_req_sigs = 0\<rparr> = Inr w \<and>
     parse_script id [0x52, 0x01, 0xaa, 0x53, 0xae] True =
       Inr \<lparr>nType = 7, type_name = ''NON_STANDARD'', reqSigs = Some (w_req_sigs w),
            addressHash = None, script_echo = Some [0x52, 0x01, 0xaa, 0x53, 0xae],
            data_payload = None, pubKeys = None\<rparr>"
    using t [of "[0x52, 0x01, 0xaa, 0x53, 0xae]" 0 0 "[]" "[]" "[]"] n by simp
  from 1 2 3 show ?thesis by blast
qed

section \<open>The generic walk\<close>

lemma unpack_H_slice:
  "s + 3 \<le> length script \<Longrightarrow> unpack_H (slice script (Suc s) (s + 3)) = Inr (le16 script (Suc s))"
  by (auto simp: unpack_H_def slice_def le16_def)


lemma unpack_L_slice:
  "s + 5 \<le> length script \<Longrightarrow> unpack_L (slice script (Suc s) (s + 5)) = Inr (le32 script (Suc s))"
  by (auto simp: unpack_L_def slice_def le32_def add.commute)


lemma step_raw:
  assumes "w_s w < length script" "unat (script ! w_s w) < 0x4c"
  shows "generic_step script w =
     Inr (Some (w\<lparr>w_s := w_s w + unat (script ! w_s w) + 1,
                 w_m := (if w_m w + 1 > 16 then 0 else w_m w + 1),
                 w_n := (if w_m w + 1 > 16 then 0 else w_n w),
                 w_last := w_last w - 1\<rparr>))"
  using assms by (simp add: generic_step_def byte_at_in next_unit_def Let_def)

lemma step_pushdata1:
  assumes "w_s w + 1 < length script" "unat (script ! w_s w) = 0x4c"
  shows "generic_step script w =
     Inr (Some (w\<lparr>w_s := w_s w + 2 + unat (script ! (w_s w + 1)), w_last := w_last w - 1\<rparr>))"
  using assms by (simp add: generic_step_def byte_at_in next_unit_def Let_def)

lemma step_pushdata2:
  assumes "w_s w + 3 \<le> length script" "unat (script ! w_s w) = 0x4d"
  shows "generic_step script w =
     Inr (Some (w\<lparr>w_s := w_s w + 3 + le16 script (w_s w + 1), w_last := w_last w - 1\<rparr>))"
  using assms by (simp add: generic_step_def byte_at_in next_unit_def Let_def unpack_H_slice)

lemma step_pushdata4:
  assumes "w_s w + 5 \<le> length script" "unat (script ! w_s w) = 0x4e"
  shows "generic_step script w =
     Inr (Some (w\<lparr>w_s := w_s w + 5 + le32 script (w_s w + 1), w_last := w_last w - 1\<rparr>))"
  using assms by (simp add: generic_step_def byte_at_in next_unit_def Let_def unpack_L_slice)








text \<open>
  Claim C6 (amended). In the generic walk of \<open>parse_script\<close>, a raw push (a byte below
  \<open>0x4c\<close>, zero included) increments the running push count \<open>m\<close> by one and is skipped
  as data, and when \<open>m\<close> then exceeds 16 the pair \<open>(n, m)\<close> is reset to \<open>(0, 0)\<close>.
  A PUSHDATA1, PUSHDATA2 or PUSHDATA4 unit with a complete length field is skipped as data
  too (opcode, length field and payload), but leaves \<open>m\<close> and \<open>n\<close> as they are.
\<close>

theorem generic_step_push_units:
  "(w_s w < length script \<and> unat (script ! w_s w) < 0x4c \<longrightarrow>
      generic_step script w =
        Inr (Some (w\<lparr>w_s := w_s w + unat (script ! w_s w) + 1,
                    w_m := (if w_m w + 1 > 16 then 0 else w_m w + 1),
                    w_n := (if w_m w + 1 > 16 then 0 else w_n w),
                    w_last := w_last w - 1\<rparr>))) \<and>
   (w_s w + 1 < length script \<and> unat (script ! w_s w) = 0x4c \<longrightarrow>
      generic_step script w =
        Inr (Some (w\<lparr>w_s := w_s w + 2 + unat (script ! (w_s w + 1)), w_last := w_last w - 1\<rparr>))) \<and>
   (w_s w + 3 \<le> length script \<and> unat (script ! w_s w) = 0x4d \<longrightarrow>
      generic_step script w =
        Inr (Some (w\<lparr>w_s := w_s w + 3 + le16 script (w_s w + 1), w_last := w_last w - 1\<rparr>))) \<and>
   (w_s w + 5 \<le> length script \<and> unat (script ! w_s w) = 0x4e \<longrightarrow>
      generic_step script w =
        Inr (Some (w\<lparr>w_s := w_s w + 5 + le32 script (w_s w + 1), w_last := w_last w - 1\<rparr>)))"
  using step_raw [of w script] step_pushdata1 [of w script] step_pushdata2 [of w script]
    step_pushdata4 [of w script]
  by blast

theorem generic_step_push_units_witness:
  "generic_step [0x01, 0xaa] \<lparr>w_s = 0, w_m = 0, w_n = 2, w_last = 0, w_req_sigs = 0\<rparr> =
     Inr (Some \<lparr>w_s = 2, w_m = 1, w_n = 2, w_last = 0, w_req_sigs = 0\<rparr>) \<and>
   generic_step [0x01, 0xaa] \<lparr>w_s = 0, w_m = 16, w_n = 2, w_last = 0, w_req_sigs = 0\<rparr> =
     Inr (Some \<lparr>w_s = 2, w_m = 0, w_n = 0, w_last = 0, w_req_sigs = 0\<rparr>) \<and>
   generic_step [0x4c, 0x01, 0xaa] \<lparr>w_s = 0, w_m = 1, w_n = 2, w_last = 0, w_req_sigs = 0\<rparr> =
     Inr (Some \<lparr>w_s = 3, w_m = 1, w_n = 2, w_last = 0, w_req_sigs = 0\<rparr>) \<and>
   generic_step [0x4d, 0x01, 0x00, 0xaa] \<lparr>w_s = 0, w_m = 1, w_n = 2, w_last = 0, w_req_sigs = 0\<rparr> =
     Inr (Some \<lparr>w_s = 4, w_m = 1, w_n = 2, w_last = 0, w_req_sigs = 0\<rparr>) \<and>
   generic_step [0x4e, 0x01, 0x00, 0x00, 0x00, 0xaa] \<lparr>w_s = 0, w_m = 1, w_n = 2, w_last = 0, w_req_sigs = 0\<rparr> =
     Inr (Some \<lparr>w_s = 6, w_m = 1, w_n = 2, w_last = 0, w_req_sigs = 0\<rparr>)"
  using generic_step_push_units [of "\<lparr>w_s = 0, w_m = 0, w_n = 2, w_last = 0, w_req_sigs = 0\<rparr>" "[0x01, 0xaa]"]
    generic_step_push_units [of "\<lparr>w_s = 0, w_m = 16, w_n = 2, w_last = 0, w_req_sigs = 0\<rparr>" "[0x01, 0xaa]"]
    generic_step_push_units [of "\<lparr>w_s = 0, w_m = 1, w_n = 2, w_last = 0, w_req_sigs = 0\<rparr>" "[0x4c, 0x01, 0xaa]"]
    generic_step_push_units [of "\<lparr>w_s = 0, w_m = 1, w_n = 2, w_last = 0, w_req_sigs = 0\<rparr>" "[0x4d, 0x01, 0x00, 0xaa]"]
    generic_step_push_units [of "\<lparr>w_s = 0, w_m = 1, w_n = 2, w_last = 0, w_req_sigs = 0\<rparr>" "[0x4e, 0x01, 0x00, 0x00, 0x00, 0xaa]"]
  by (simp add: le16_def le32_def)

text \<open>
  The claim as stated fails for the PUSHDATA forms: after the unit \<open>4c 01 aa\<close> the push
  count is still 0, where the raw push \<open>01 aa\<close> of the same payload makes it 1.
\<close>

theorem pushdata_unit_leaves_push_count:
  "generic_step [0x4c, 0x01, 0xaa] \<lparr>w_s = 0, w_m = 0, w_n = 0, w_last = 0, w_req_sigs = 0\<rparr> =
     Inr (Some \<lparr>w_s = 3, w_m = 0, w_n = 0, w_last = 0, w_req_sigs = 0\<rparr>) \<and>
   generic_step [0x01, 0xaa] \<lparr>w_s = 0, w_m = 0, w_n = 0, w_last = 0, w_req_sigs = 0\<rparr> =
     Inr (Some \<lparr>w_s = 2, w_m = 1, w_n = 0, w_last = 0, w_req_sigs = 0\<rparr>)"
  by (simp add: generic_step_def byte_at_def next_unit_def)



section \<open>The P2PKH template\<close>

text \<open>
  Claim C8 (amended). \<open>parse_script\<close> classifies a script as P2PKH, with the 20 bytes at
  offsets 3 to 22 as address hash and one required signature, exactly when the script has
  25 bytes, begins with \<open>OP_DUP OP_HASH160\<close> (\<open>76 a9\<close>) and ends with
  \<open>OP_EQUALVERIFY OP_CHECKSIG\<close> (\<open>88 ac\<close>). The third byte, the push opcode, is not
  compared with \<open>0x14\<close>: no byte of the template but these four is read.
\<close>

theorem p2pkh_classification:
  "(length script = 25 \<and> take 2 script = [0x76, 0xa9] \<and> drop 23 script = [0x88, 0xac] \<longrightarrow>
      parse_script hash160 script segwit =
        Inr \<lparr>nType = 0, type_name = ''P2PKH'', reqSigs = Some 1,
             addressHash = Some (take 20 (drop 3 script)), script_echo = None,
             data_payload = None, pubKeys = None\<rparr>) \<and>
   ((\<exists>r. parse_script hash160 script segwit = Inr r \<and> type_name r = ''P2PKH'') \<longrightarrow>
      length script = 25 \<and> take 2 script = [0x76, 0xa9] \<and> drop 23 script = [0x88, 0xac])"
proof (rule conjI)
  show "length script = 25 \<and> take 2 script = [0x76, 0xa9] \<and> drop 23 script = [0x88, 0xac] \<longrightarrow>
      parse_script hash160 script segwit =
        Inr \<lparr>nType = 0, type_name = ''P2PKH'', reqSigs = Some 1,
             addressHash = Some (take 20 (drop 3 script)), script_echo = None,
             data_payload = None, pubKeys = None\<rparr>"
  proof
    assume c: "length script = 25 \<and> take 2 script = [0x76, 0xa9] \<and> drop 23 script = [0x88, 0xac]"
    then have ne: "script \<noteq> []" by auto
    from c have pt: "p2pkh_template script" by (simp add: p2pkh_template_iff)
    from c have l: "length script = 25" by simp
    show "parse_script hash160 script segwit =
        Inr \<lparr>nType = 0, type_name = ''P2PKH'', reqSigs = Some 1,
             addressHash = Some (take 20 (drop 3 script)), script_echo = None,
             data_payload = None, pubKeys = None\<rparr>"
      by (simp add: parse_script_unfold' [OF ne] pt l mk_result_def slice_def)
  qed
next
  show "(\<exists>r. parse_script hash160 script segwit = Inr r \<and> type_name r = ''P2PKH'') \<longrightarrow>
      length script = 25 \<and> take 2 script = [0x76, 0xa9] \<and> drop 23 script = [0x88, 0xac]"
    using p2pkh_only_by_template p2pkh_template_iff by blast
qed

text \<open>
  The claim as stated fails: a 25-byte script whose third byte is \<open>0x00\<close> instead of the
  push-20 opcode \<open>0x14\<close> is classified P2PKH all the same.
\<close>

theorem p2pkh_unchecked_push_opcode:
  "parse_script id ([0x76, 0xa9, 0x00] @ replicate 20 0x07 @ [0x88, 0xac]) True =
     Inr \<lparr>nType = 0, type_name = ''P2PKH'', reqSigs = Some 1,
          addressHash = Some (replicate 20 0x07), script_echo = None,
          data_payload = None, pubKeys = None\<rparr>"
  by (simp add: parse_script_unfold Let_def mk_result_def slice_def)

theorem p2pkh_classification_witness:
  "parse_script id ([0x76, 0xa9, 0x14] @ replicate 20 0x07 @ [0x88, 0xac]) True =
     Inr \<lparr>nType = 0, type_name = ''P2PKH'', reqSigs = Some 1,
          addressHash = Some (replicate 20 0x07), script_echo = None,
          data_payload = None, pubKeys = None\<rparr> \<and>
   length ([0x76, 0xa9, 0x14] @ replicate 20 (0x07 :: byte) @ [0x88, 0xac]) = 25"
  using p2pkh_classification [of "[0x76, 0xa9, 0x14] @ replicate 20 0x07 @ [0x88, 0xac]" id True]
  by simp

section \<open>The empty script\<close>

text \<open>
  Claim C7 (amended). \<open>parse_script\<close> on an empty input returns the classification
  \<open>NON_STANDARD\<close> (\<open>nType\<close> 7) with zero required signatures and an empty script: the
  code has no tag of its own for the empty script.
\<close>

theorem parse_script_empty:
  "parse_script hash160 [] segwit =
     Inr \<lparr>nType = 7, type_name = ''NON_STANDARD'', reqSigs = Some 0,
          addressHash = None, script_echo = Some [], data_payload = None, pubKeys = None\<rparr>"
  by (simp add: parse_script_def mk_result_def)

text \<open>The type of the result for the empty script is \<open>NON_STANDARD\<close>, not \<open>EMPTY\<close>.\<close>

theorem parse_script_empty_not_EMPTY:
  "map_sum id type_name (parse_script id [] True) = Inr ''NON_STANDARD'' \<and>
   map_sum id type_name (parse_script id [] True) \<noteq> Inr ''EMPTY''"
  by (simp add: parse_script_def mk_result_def)

section \<open>Encoding a push and decoding it again\<close>

text \<open>
  The header that \<open>op_push_data\<close> chooses is the shortest form for the length, and a
  payload of at most 75 bytes comes back from \<open>read_opcode\<close> behind its length byte.
  A longer payload does not come back: \<open>read_opcode\<close> returns the first byte of the
  header and no payload.
\<close>

lemma read_opcode_short_push:
  "length p \<le> 75 \<Longrightarrow>
   read_opcode (op_push_data f p @ rest) = Inr ((Some [of_nat (length p)], Some p), rest)"
  by (simp add: read_opcode_def op_push_data_def read_def byte_at_def unat_length_byte)

lemma op_push_data_header:
  "op_push_data f p =
     (if length p \<le> 75 then [of_nat (length p)]
      else if length p \<le> 255 then [0x4c, of_nat (length p)]
      else if length p \<le> 65535 then 0x4d # f (length p)
      else 0x4e # f (length p)) @ p"
  by (simp add: op_push_data_def)

lemma read_opcode_pushdata_forms:
  "75 < length p \<Longrightarrow>
   read_opcode (op_push_data f p @ rest) =
     Inr ((Some [hd (op_push_data f p)], None), tl (op_push_data f p) @ rest)"
  by (auto simp: read_opcode_def op_push_data_def read_def byte_at_def int_eq_bytes_def)

text \<open>
  Claim C3. Decoding one unit from \<open>op_push_data(p)\<close> should give back the payload
  \<open>p\<close>. For a payload of 76 zero bytes the encoder chooses the PUSHDATA1 form
  \<open>4c 4c <76 bytes>\<close>, as the claim says; \<open>read_opcode\<close> then returns the opcode byte
  \<open>4c\<close> and \<^verbatim>\<open>None\<close> for the payload, and leaves the length byte and the payload in the
  stream: its PUSHDATA1 branch compares the integer \<^verbatim>\<open>b[0]\<close> with the \<^verbatim>\<open>bytes\<close> constant
  \<^verbatim>\<open>OP_PUSHDATA1\<close> and is never taken.
\<close>

theorem read_opcode_misses_pushdata1:
  "op_push_data int_to_bytes_spec (replicate 76 0x00) = [0x4c, 0x4c] @ replicate 76 0x00 \<and>
   read_opcode (op_push_data int_to_bytes_spec (replicate 76 0x00)) =
     Inr ((Some [0x4c], None), 0x4c # replicate 76 0x00)"
  by (simp add: read_opcode_def op_push_data_def read_def byte_at_def int_eq_bytes_def)

section \<open>Removing a sub-script\<close>

text \<open>
  Claim C5. \<open>delete_from_script(s, t)\<close> should return \<open>s\<close> without the occurrences of
  \<open>t\<close> that start at a unit boundary. The script \<open>76 04 01 02 03 04\<close> (\<open>OP_DUP\<close> and a
  push of four bytes) has no occurrence of \<open>ac ac\<close> at all, and yet the result is
  \<open>76 04 01\<close>: after the loop, line 268 appends \<^verbatim>\<open>script[k:k + ls]\<close>, the first
  \<open>len(t)\<close> bytes of what is left of the window, instead of all of it.
\<close>

theorem delete_from_script_drops_bytes:
  "delete_from_script [0x76, 0x04, 0x01, 0x02, 0x03, 0x04] [0xac, 0xac] = Inr [0x76, 0x04, 0x01] \<and>
   \<not> sublist [0xac, 0xac] [0x76, 0x04, 0x01, 0x02, 0x03, 0x04 :: byte]"
  by code_simp

section \<open>A failure of the disassembler\<close>

lemma join_space_snoc:
  "join_space (xs @ [x]) = (if xs = [] then x else join_space xs @ '' '' @ x)"
  by (induction xs rule: join_space.induct) auto

text \<open>
  Claim C2 (amended). When \<open>decode_script\<close> hits a decode failure (an exception inside
  its loop: a truncated PUSHDATA length field, an opcode value that is not in the table, a
  read out of bounds), the returned string is the tokens appended before the failure,
  joined by spaces, followed by the failure token \<open>[SCRIPT_DECODE_FAILED]\<close> as the last
  token. It is the failure token alone exactly when no token had been appended before the
  failure.
\<close>

theorem decode_script_failure:
  "snd (decode_loop RAW_OPCODE script asm 0 []) \<longrightarrow>
     decode_script RAW_OPCODE script asm =
       (if fst (decode_loop RAW_OPCODE script asm 0 []) = [] then ''[SCRIPT_DECODE_FAILED]''
        else join_space (fst (decode_loop RAW_OPCODE script asm 0 [])) @ '' [SCRIPT_DECODE_FAILED]'') \<and>
     suffix ''[SCRIPT_DECODE_FAILED]'' (decode_script RAW_OPCODE script asm) \<and>
     (decode_script RAW_OPCODE script asm = ''[SCRIPT_DECODE_FAILED]'' \<longleftrightarrow>
        fst (decode_loop RAW_OPCODE script asm 0 []) = [])"
proof
  assume r: "snd (decode_loop RAW_OPCODE script asm 0 [])"
  obtain toks raised where d: "decode_loop RAW_OPCODE script asm 0 [] = (toks, raised)"
    by (cases "decode_loop RAW_OPCODE script asm 0 []")
  with r have raised by simp
  then have e: "decode_script RAW_OPCODE script asm =
      (if toks = [] then ''[SCRIPT_DECODE_FAILED]''
       else join_space toks @ '' [SCRIPT_DECODE_FAILED]'')"
    by (simp add: decode_script_def d join_space_snoc)
  have s: "suffix ''[SCRIPT_DECODE_FAILED]'' (decode_script RAW_OPCODE script asm)"
  proof (cases "toks = []")
    case True
    with e show ?thesis by simp
  next
    case False
    with e have "decode_script RAW_OPCODE script asm =
        (join_space toks @ '' '') @ ''[SCRIPT_DECODE_FAILED]''" by simp
    then show ?thesis unfolding suffix_def by blast
  qed
  have i: "decode_script RAW_OPCODE script asm = ''[SCRIPT_DECODE_FAILED]'' \<longleftrightarrow> toks = []"
  proof (cases "toks = []")
    case True
    with e show ?thesis by simp
  next
    case False
    with e have "length (decode_script RAW_OPCODE script asm) =
        length (join_space toks) + length '' [SCRIPT_DECODE_FAILED]''" by simp
    then have "decode_script RAW_OPCODE script asm \<noteq> ''[SCRIPT_DECODE_FAILED]''"
      by auto
    with False show ?thesis by simp
  qed
  from e s i show "decode_script RAW_OPCODE script asm =
       (if fst (decode_loop RAW_OPCODE script asm 0 []) = [] then ''[SCRIPT_DECODE_FAILED]''
        else join_space (fst (decode_loop RAW_OPCODE script asm 0 [])) @ '' [SCRIPT_DECODE_FAILED]'') \<and>
     suffix ''[SCRIPT_DECODE_FAILED]'' (decode_script RAW_OPCODE script asm) \<and>
     (decode_script RAW_OPCODE script asm = ''[SCRIPT_DECODE_FAILED]'' \<longleftrightarrow>
        fst (decode_loop RAW_OPCODE script asm 0 []) = [])"
    by (simp add: d)
qed

text \<open>
  The claim as stated fails: the tokens decoded before the failure stay in the output. A
  raw push followed by a truncated PUSHDATA2 gives \<open>[1] [SCRIPT_DECODE_FAILED]\<close>.
\<close>

theorem decode_script_keeps_partial_tokens:
  "decode_script RAW_OPCODE_spec [0x01, 0xaa, 0x4d] False = ''[1] [SCRIPT_DECODE_FAILED]'' \<and>
   decode_script RAW_OPCODE_spec [0x01, 0xaa, 0x4d] True = ''OP_PUSHBYTES[1] aa [SCRIPT_DECODE_FAILED]'' \<and>
   decode_script RAW_OPCODE_spec [0xac, 0x4c] False = ''OP_CHECKSIG OP_PUSHDATA1 [SCRIPT_DECODE_FAILED]''"
  by code_simp

theorem decode_script_failure_witness:
  "snd (decode_loop RAW_OPCODE_spec [0x01, 0xaa, 0x4d] False 0 []) \<and>
   fst (decode_loop RAW_OPCODE_spec [0x01, 0xaa, 0x4d] False 0 []) = [''[1]''] \<and>
   decode_script RAW_OPCODE_spec [0x01, 0xaa, 0x4d] False = ''[1] [SCRIPT_DECODE_FAILED]'' \<and>
   snd (decode_loop RAW_OPCODE_spec [0x4d] False 0 []) \<and>
   decode_script RAW_OPCODE_spec [0x4d] False = ''[SCRIPT_DECODE_FAILED]''"
proof -
  have a: "decode_loop RAW_OPCODE_spec [0x01, 0xaa, 0x4d] False 0 [] = ([''[1]''], True)"
    by code_simp
  have b: "decode_loop RAW_OPCODE_spec [0x4d] False 0 [] = ([], True)"
    by code_simp
  show ?thesis
    using decode_script_failure [of RAW_OPCODE_spec "[0x01, 0xaa, 0x4d]" False]
      decode_script_failure [of RAW_OPCODE_spec "[0x4d]" False]
    by (simp add: a b)
qed

section \<open>The validator and the decoder run the same checks\<close>

lemma valid_eq: "is_valid_signature_encoding sig = Inr (sig_checks sig)"
proof (cases "length sig < 9 \<or> 73 < length sig")
  case True
  then show ?thesis
    by (auto simp add: is_valid_signature_encoding_def sig_checks_def Let_def)
next
  case False
  then have ne: "sig \<noteq> []" and l9: "9 \<le> length sig" "length sig \<le> 73" by auto
  show ?thesis
    unfolding is_valid_signature_encoding_def sig_checks_def Let_def
    using ne l9 by (simp add: byte_at_0 byte_at_in null_padded_in cong: if_cong)
qed

lemma parse_eq:
  "parse_signature sig =
     (if sig_checks sig
      then Inr (slice sig 5 (4 + unat (sig ! 3)), slice sig (unat (sig ! 3) + 6) (length sig - 1))
      else Inl invalid_signature)"
proof (cases "length sig < 9 \<or> 73 < length sig")
  case True
  then show ?thesis
    by (auto simp add: parse_signature_def sig_checks_def Let_def)
next
  case False
  then have ne: "sig \<noteq> []" and l9: "9 \<le> length sig" "length sig \<le> 73" by auto
  show ?thesis
    unfolding parse_signature_def sig_checks_def Let_def
    using ne l9 by (auto simp add: byte_at_0 byte_at_in null_padded_in cong: if_cong)
qed

text \<open>
  The decoder returns \<open>r\<close> one byte short for every well-formed signature, so that no
  well-formed signature survives the round trip through the envelope, whatever the sighash
  byte.
\<close>

lemma parse_signature_never_round_trips:
  assumes v: "is_valid_signature_encoding sig = Inr True" and p: "parse_signature sig = Inr (r, s)"
  shows "length r + 1 = unat (sig ! 3) \<and> encode_signature_spec r s x \<noteq> sig"
proof -
  from v have c: "sig_checks sig" by (simp add: valid_eq)
  with p have r: "r = slice sig 5 (4 + unat (sig ! 3))" by (simp add: parse_eq)
  from c have b: "5 + unat (sig ! 3) < length sig" "unat (sig ! 3) \<noteq> 0"
    by (simp_all add: sig_checks_def Let_def)
  from r b have l: "length r + 1 = unat (sig ! 3)" by (simp add: slice_def)
  have "encode_signature_spec r s x ! 3 = of_nat (length r)"
    by (simp add: encode_signature_spec_def)
  moreover have "(of_nat (length r) :: byte) \<noteq> sig ! 3"
  proof
    assume "(of_nat (length r) :: byte) = sig ! 3"
    then have "unat (of_nat (length r) :: byte) = unat (sig ! 3)" by simp
    moreover have "unat (sig ! 3) < 256" using unsigned_less [of "sig ! 3", where ?'a = nat] by simp
    then have "length r < 256" using l by simp
    ultimately show False using l \<open>length r < 256\<close> by (simp add: unat_of_nat)
  qed
  ultimately have "encode_signature_spec r s x \<noteq> sig" by auto
  with l show ?thesis by simp
qed

text \<open>
  Claim C9. For every byte sequence \<open>sig\<close>, \<open>parse_signature\<close> raises its
  malformed-signature error (\<open>ValueError("invalid signature")\<close>) exactly when
  \<open>is_valid_signature_encoding\<close> returns \<open>False\<close>, and returns a pair \<open>(r, s)\<close>
  exactly when it returns \<open>True\<close>; the validator itself always returns a boolean, so no
  other exception (an \<open>IndexError\<close>) escapes either function.
\<close>

theorem parse_signature_agrees_with_validator:
  "(parse_signature sig = Inl invalid_signature \<longleftrightarrow> is_valid_signature_encoding sig = Inr False) \<and>
   ((\<exists>r s. parse_signature sig = Inr (r, s)) \<longleftrightarrow> is_valid_signature_encoding sig = Inr True) \<and>
   (\<exists>b. is_valid_signature_encoding sig = Inr b)"
  by (simp add: valid_eq parse_eq)

theorem parse_signature_agrees_with_validator_witness:
  "is_valid_signature_encoding [0x30, 6, 2, 1, 1, 2, 1, 1, 1] = Inr True \<and>
   (\<exists>r s. parse_signature [0x30, 6, 2, 1, 1, 2, 1, 1, 1] = Inr (r, s)) \<and>
   is_valid_signature_encoding [0x30, 6, 2, 1, 1, 2, 0, 1, 1] = Inr False \<and>
   parse_signature [0x30, 6, 2, 1, 1, 2, 0, 1, 1] = Inl invalid_signature"
proof -
  have v: "is_valid_signature_encoding [0x30, 6, 2, 1, 1, 2, 1, 1, 1] = Inr True"
    by (simp add: is_valid_signature_encoding_def byte_at_def null_padded_def)
  have w: "is_valid_signature_encoding [0x30, 6, 2, 1, 1, 2, 0, 1, 1] = Inr False"
    by (simp add: is_valid_signature_encoding_def byte_at_def null_padded_def)
  show ?thesis
    using v w parse_signature_agrees_with_validator [of "[0x30, 6, 2, 1, 1, 2, 1, 1, 1]"]
      parse_signature_agrees_with_validator [of "[0x30, 6, 2, 1, 1, 2, 0, 1, 1]"]
    by simp
qed

text \<open>
  Claim C1. The round trip of the decoder: re-encoding the pair that \<open>parse_signature\<close>
  returns should give the signature back. The decoder slices \<open>r\<close> as \<^verbatim>\<open>sig[5:4 + len_r]\<close>,
  one byte after the start of \<open>r\<close> at offset 4, so the first byte of \<open>r\<close> is lost
  (\<open>s\<close>, sliced from its own first byte at \<open>len_r + 6\<close>, is complete). On the
  well-formed nine-byte signature \<open>30 06 02 01 01 02 01 01 01\<close> the decoder returns an
  empty \<open>r\<close>, and the envelope of \<open>(r, s)\<close> with the original sighash byte is not the
  signature.
\<close>

theorem parse_signature_loses_first_byte_of_r:
  "is_valid_signature_encoding [0x30, 6, 2, 1, 1, 2, 1, 1, 1] = Inr True \<and>
   parse_signature [0x30, 6, 2, 1, 1, 2, 1, 1, 1] = Inr ([], [1]) \<and>
   encode_signature_spec [] [1] 1 = [0x30, 5, 2, 0, 2, 1, 1, 1] \<and>
   encode_signature_spec [] [1] 1 \<noteq> [0x30, 6, 2, 1, 1, 2, 1, 1, 1]"
  by (simp add: is_valid_signature_encoding_def parse_signature_def byte_at_def
      null_padded_def slice_def encode_signature_spec_def)

end
